theory Spec2Isabelle
  imports Complex_Main "HOL-Library.Word" "HOL-Library.Finite_Map"
begin

section \<open>Document text store (app/redis\_client.py)\<close>

text \<open>
  A shallow embedding of the Redis-backed document text store. Python values are
  modelled as follows.
  \<^item> \<open>bytes\<close> is a list of 8-bit words; \<open>str\<close> used as document text is a list of
    code points (\<open>nat\<close>), so that \<open>text.encode("utf-8")\<close> and \<open>bytes.decode("utf-8")\<close>
    are real functions that can fail; identifiers and Redis key names are \<open>string\<close>.
  \<^item> The module globals \<open>REDIS\<close> and \<open>DOC_STORE\<close> are the two fields of the record
    \<open>store\<close>, passed through every call and returned updated.
  \<^item> The Redis server is a finite map from key names to bytes. Every call of the
    client consumes one entry of a fault schedule; an entry \<open>True\<close> makes that call
    raise. A call that raises leaves the key space as it was. Key expiry on the server
    is not modelled: the theorems speak about reads that happen before a key expires.
  \<^item> \<open>time.time()\<close> is a parameter \<open>now\<close> of type \<open>real\<close>.
  \<^item> \<open>gzip.compress\<close>, \<open>gzip.decompress\<close> and the reading of a meta record with
    \<open>json.loads\<close> are library code; they are fields of the record \<open>env\<close>, next to
    the configuration constants read from the environment.
\<close>

subsection \<open>Bytes and UTF-8\<close>

type_synonym byte = "8 word"
type_synonym bytes = "byte list"
type_synonym pystr = "nat list"

datatype exn = RedisError | UnicodeEncodeError | ZeroDivisionError

text \<open>A code point that \<open>str.encode("utf-8")\<close> accepts: below 0x110000 and no surrogate.\<close>

definition is_scalar :: "nat \<Rightarrow> bool" where
  "is_scalar c \<longleftrightarrow> c < 0x110000 \<and> \<not> (0xD800 \<le> c \<and> c < 0xE000)"

definition valid_text :: "pystr \<Rightarrow> bool" where
  "valid_text t \<longleftrightarrow> list_all is_scalar t"

definition encode_cp :: "nat \<Rightarrow> bytes" where
  "encode_cp c =
     (if c < 0x80 then [of_nat c]
      else if c < 0x800 then [of_nat (0xC0 + c div 64), of_nat (0x80 + c mod 64)]
      else if c < 0x10000 then
        [of_nat (0xE0 + c div 4096), of_nat (0x80 + c div 64 mod 64), of_nat (0x80 + c mod 64)]
      else
        [of_nat (0xF0 + c div 262144), of_nat (0x80 + c div 4096 mod 64),
         of_nat (0x80 + c div 64 mod 64), of_nat (0x80 + c mod 64)])"

definition utf8 :: "pystr \<Rightarrow> bytes" where
  "utf8 t = concat (map encode_cp t)"

text \<open>\<open>text.encode("utf-8")\<close>: raises \<open>UnicodeEncodeError\<close> on a lone surrogate.\<close>

definition utf8_encode :: "pystr \<Rightarrow> exn + bytes" where
  "utf8_encode t = (if valid_text t then Inr (utf8 t) else Inl UnicodeEncodeError)"

definition is_cont :: "byte \<Rightarrow> bool" where
  "is_cont b \<longleftrightarrow> 0x80 \<le> unat b \<and> unat b < 0xC0"

text \<open>
  \<open>bytes.decode("utf-8")\<close>, strict: \<open>None\<close> stands for \<open>UnicodeDecodeError\<close>
  (truncated sequence, stray continuation byte, overlong form, surrogate, value above
  0x10FFFF).
\<close>

fun utf8_decode :: "bytes \<Rightarrow> pystr option" where
  "utf8_decode [] = Some []"
| "utf8_decode (b # bs) =
     (let x = unat b in
      if x < 0x80 then map_option (Cons x) (utf8_decode bs)
      else if 0xC2 \<le> x \<and> x < 0xE0 then
        (case bs of
           b1 # r \<Rightarrow>
             if is_cont b1
             then map_option (Cons ((x - 0xC0) * 64 + (unat b1 - 0x80))) (utf8_decode r)
             else None
         | _ \<Rightarrow> None)
      else if 0xE0 \<le> x \<and> x < 0xF0 then
        (case bs of
           b1 # b2 # r \<Rightarrow>
             (let c = (x - 0xE0) * 4096 + (unat b1 - 0x80) * 64 + (unat b2 - 0x80) in
              if is_cont b1 \<and> is_cont b2 \<and> 0x800 \<le> c \<and> is_scalar c
              then map_option (Cons c) (utf8_decode r)
              else None)
         | _ \<Rightarrow> None)
      else if 0xF0 \<le> x \<and> x < 0xF5 then
        (case bs of
           b1 # b2 # b3 # r \<Rightarrow>
             (let c = (x - 0xF0) * 262144 + (unat b1 - 0x80) * 4096
                      + (unat b2 - 0x80) * 64 + (unat b3 - 0x80) in
              if is_cont b1 \<and> is_cont b2 \<and> is_cont b3 \<and> 0x10000 \<le> c \<and> is_scalar c
              then map_option (Cons c) (utf8_decode r)
              else None)
         | _ \<Rightarrow> None)
      else None)"

subsection \<open>Key names\<close>

text \<open>\<open>str(i)\<close> for a natural number: its decimal digits.\<close>

definition digit_char :: "nat \<Rightarrow> char" where
  "digit_char d = char_of (48 + d)"

fun show_nat :: "nat \<Rightarrow> string" where
  "show_nat n = (if n < 10 then [digit_char n] else show_nat (n div 10) @ [digit_char (n mod 10)])"

declare show_nat.simps [simp del]

definition show_int :: "int \<Rightarrow> string" where
  "show_int i = (if i < 0 then CHR ''-'' # show_nat (nat (- i)) else show_nat (nat i))"

definition MARKER_COMPRESSED :: bytes where
  "MARKER_COMPRESSED = [0x67, 0x7A, 0x69, 0x70, 0x3A]"

definition META_SUFFIX :: string where
  "META_SUFFIX = '':meta''"

definition single_key :: "string \<Rightarrow> string" where
  "single_key doc_id = ''doc:'' @ doc_id"

definition meta_key :: "string \<Rightarrow> string" where
  "meta_key doc_id = ''doc:'' @ doc_id @ META_SUFFIX"

definition chunk_key :: "string \<Rightarrow> nat \<Rightarrow> string" where
  "chunk_key doc_id i = ''doc:'' @ doc_id @ '':chunk:'' @ show_nat i"

subsection \<open>Configuration and library functions\<close>

text \<open>
  The four integers are the module constants read from the environment
  (\<open>_CHUNK_SIZE\<close> and \<open>_MAX_SINGLE_KEY\<close> without their leading underscore); the
  module reads them with \<open>int(...)\<close> and checks no range. The first three functions
  stand for library calls: \<open>None\<close> is a raised exception.
  \<open>json_loads_meta\<close> is \<open>json.loads\<close> of the decoded meta bytes followed by
  \<open>int(meta.get("chunks", 0))\<close> and the truth value of \<open>meta.get("compressed")\<close>; every
  place that reads a meta record handles an exception of any of these steps in one
  handler. \<open>float_ceil_quot a b\<close> stands for \<open>math.ceil(a / b)\<close>, the ceiling of a
  float quotient, for the arguments at which float rounding can make it differ from
  the ceiling of the exact quotient (see \<open>ceil_quot\<close> below).
\<close>

record env =
  DOC_TTL_SECONDS :: int
  COMPRESS_THRESHOLD :: int
  CHUNK_SIZE :: int
  MAX_SINGLE_KEY :: int
  gzip_compress_bytes :: "bytes \<Rightarrow> bytes option"
  gzip_decompress_bytes :: "bytes \<Rightarrow> bytes option"
  json_loads_meta :: "bytes \<Rightarrow> (int \<times> bool) option"
  float_ceil_quot :: "int \<Rightarrow> int \<Rightarrow> int"

subsection \<open>The Redis client\<close>

type_synonym keyspace = "(string, bytes) fmap"

record redis =
  kv :: keyspace
  faults :: "bool list"

definition raises :: "redis \<Rightarrow> bool" where
  "raises r = (case faults r of [] \<Rightarrow> False | f # _ \<Rightarrow> f)"

definition tick :: "redis \<Rightarrow> redis" where
  "tick r = r\<lparr>faults := tl (faults r)\<rparr>"

definition redis_get :: "string \<Rightarrow> redis \<Rightarrow> (exn + bytes option) \<times> redis" where
  "redis_get k r = (if raises r then Inl RedisError else Inr (fmlookup (kv r) k), tick r)"

definition redis_exists :: "string \<Rightarrow> redis \<Rightarrow> (exn + bool) \<times> redis" where
  "redis_exists k r = (if raises r then Inl RedisError else Inr (k |\<in>| fmdom (kv r)), tick r)"

definition redis_setex :: "string \<Rightarrow> int \<Rightarrow> bytes \<Rightarrow> redis \<Rightarrow> (exn + unit) \<times> redis" where
  "redis_setex k ttl v r =
     (if raises r then (Inl RedisError, tick r)
      else (Inr (), tick (r\<lparr>kv := fmupd k v (kv r)\<rparr>)))"

text \<open>\<open>DEL k1 k2 ...\<close>: the keys are removed one after the other; the reply counts the
  keys that were there.\<close>

fun del_keys :: "string list \<Rightarrow> keyspace \<Rightarrow> nat \<times> keyspace" where
  "del_keys [] m = (0, m)"
| "del_keys (k # ks) m =
     (let (n, m') = del_keys ks (fmdrop k m)
      in ((if k |\<in>| fmdom m then 1 else 0) + n, m'))"

definition redis_delete :: "string list \<Rightarrow> redis \<Rightarrow> (exn + nat) \<times> redis" where
  "redis_delete ks r =
     (if raises r then (Inl RedisError, tick r)
      else (Inr (fst (del_keys ks (kv r))), tick (r\<lparr>kv := snd (del_keys ks (kv r))\<rparr>)))"

text \<open>A pipeline buffers its \<open>setex\<close> commands; \<open>execute()\<close> is the one call that
  reaches the server, and applies them in order.\<close>

definition apply_writes :: "(string \<times> bytes) list \<Rightarrow> keyspace \<Rightarrow> keyspace" where
  "apply_writes ws m = foldl (\<lambda>m (k, v). fmupd k v m) m ws"

definition pipeline_execute :: "(string \<times> bytes) list \<Rightarrow> redis \<Rightarrow> (exn + unit) \<times> redis" where
  "pipeline_execute ws r =
     (if raises r then (Inl RedisError, tick r)
      else (Inr (), tick (r\<lparr>kv := apply_writes ws (kv r)\<rparr>)))"

definition redis_ping :: "redis \<Rightarrow> (exn + bool) \<times> redis" where
  "redis_ping r = (if raises r then Inl RedisError else Inr True, tick r)"

subsection \<open>Module state\<close>

record store =
  REDIS :: "redis option"
  DOC_STORE :: "string \<rightharpoonup> real \<times> pystr"

subsection \<open>put\_doc\_text\<close>

text \<open>Lines 119 to 129: compress when the threshold is non-zero and reached; a failing
  compressor leaves the raw bytes.\<close>

definition maybe_compress :: "env \<Rightarrow> bytes \<Rightarrow> bytes \<times> bool" where
  "maybe_compress E raw_bytes =
     (if COMPRESS_THRESHOLD E \<noteq> 0 \<and> COMPRESS_THRESHOLD E \<le> int (length raw_bytes)
      then (case gzip_compress_bytes E raw_bytes of
              Some gz \<Rightarrow> (gz, True)
            | None \<Rightarrow> (raw_bytes, False))
      else (raw_bytes, False))"

text \<open>\<open>_store_in_redis_raw\<close>, called only after \<open>put_doc_text\<close> has found \<open>REDIS\<close>
  configured: an exception of \<open>setex\<close> becomes the result \<open>False\<close>.\<close>

definition store_in_redis_raw :: "string \<Rightarrow> bytes \<Rightarrow> int \<Rightarrow> redis \<Rightarrow> bool \<times> redis" where
  "store_in_redis_raw key v ttl r =
     (case redis_setex key ttl v r of
        (Inr _, r1) \<Rightarrow> (True, r1)
      | (Inl _, r1) \<Rightarrow> (False, r1))"

definition single_payload :: "bytes \<Rightarrow> bool \<Rightarrow> bytes" where
  "single_payload to_store compressed =
     (if compressed then MARKER_COMPRESSED @ to_store else to_store)"

text \<open>Lines 139 to 153: the single-key write; on success the meta key is deleted, and a
  failure of that delete is ignored.\<close>

definition put_single :: "env \<Rightarrow> string \<Rightarrow> bytes \<Rightarrow> bool \<Rightarrow> redis \<Rightarrow> bool \<times> redis" where
  "put_single E doc_id to_store compressed r =
     (case store_in_redis_raw (single_key doc_id) (single_payload to_store compressed)
             (DOC_TTL_SECONDS E) r of
        (True, r1) \<Rightarrow> (True, snd (redis_delete [meta_key doc_id] r1))
      | (False, r1) \<Rightarrow> (False, r1))"

text \<open>The ceiling of the exact quotient of two integers, for a non-zero \<open>b\<close>.\<close>

definition ceil_div :: "int \<Rightarrow> int \<Rightarrow> int" where
  "ceil_div a b = - ((- a) div b)"

text \<open>
  \<open>math.ceil(a / b)\<close> of line 159, for a non-zero \<open>b\<close>. In Python \<open>a / b\<close> is a float,
  the exact quotient rounded to the nearest float, and \<open>math.ceil\<close> is the ceiling of
  that float; it is not always the ceiling of the exact quotient. With a length of 5
  and a chunk size of \<open>10 ^ 400\<close> the float is \<open>0.0\<close> and the result 0, where the exact
  ceiling is 1; with \<open>2 ^ 53 + 1\<close> and \<open>2 ^ 53\<close> the float is \<open>1.0\<close> and the result 1,
  where the exact ceiling is 2.

  For \<open>0 \<le> a < 2 ^ 53\<close> and \<open>0 < b < 2 ^ 53\<close> the two agree. If \<open>b\<close> divides \<open>a\<close>, the
  quotient is an integer below \<open>2 ^ 53\<close>, hence a float, and is not rounded. Otherwise
  the quotient lies strictly between two integers \<open>k - 1\<close> and \<open>k\<close>, both floats, so
  the rounded quotient lies between them too, and it is at least \<open>1 / b\<close> above
  \<open>k - 1\<close>. For \<open>k - 1 = 0\<close> that is far above the smallest positive float. For
  \<open>k - 1 > 0\<close> half the distance from \<open>k - 1\<close> to the next float is at most
  \<open>(k - 1) / 2 ^ 53\<close>, which is less than \<open>1 / b\<close> because \<open>(k - 1) * b < a < 2 ^ 53\<close>.
  So the quotient is not rounded down to \<open>k - 1\<close>, and the ceiling of the float is \<open>k\<close>.
  In that range the model computes the exact ceiling; everywhere else the result is
  the parameter \<open>float_ceil_quot\<close> of the configuration, about which nothing is
  assumed.
\<close>

definition ceil_quot :: "env \<Rightarrow> int \<Rightarrow> int \<Rightarrow> int" where
  "ceil_quot E a b =
     (if 0 \<le> a \<and> a < 2 ^ 53 \<and> 0 < b \<and> b < 2 ^ 53 then ceil_div a b
      else float_ceil_quot E a b)"

text \<open>Lines 163 and 164, \<open>gz_bytes[i * _CHUNK_SIZE : i * _CHUNK_SIZE + _CHUNK_SIZE]\<close>, for a
  chunk size that is not negative. With a negative chunk size the quotient of line 159
  is not positive, and the body of the loop of line 162 is not run.\<close>

definition slice_chunk :: "env \<Rightarrow> bytes \<Rightarrow> nat \<Rightarrow> bytes" where
  "slice_chunk E gz_bytes i =
     take (nat (CHUNK_SIZE E)) (drop (i * nat (CHUNK_SIZE E)) gz_bytes)"

definition chunk_writes :: "env \<Rightarrow> string \<Rightarrow> bytes \<Rightarrow> int \<Rightarrow> (string \<times> bytes) list" where
  "chunk_writes E doc_id gz_bytes n_chunks =
     map (\<lambda>i. (chunk_key doc_id i, slice_chunk E gz_bytes i)) [0..<nat n_chunks]"

definition dquote :: char where
  "dquote = char_of (34::nat)"

definition json_field :: "string \<Rightarrow> string \<Rightarrow> string" where
  "json_field name v = dquote # name @ [dquote] @ '': '' @ v"

text \<open>\<open>json.dumps(meta).encode("utf-8")\<close> for the dictionary of line 160.\<close>

definition meta_json :: "int \<Rightarrow> int \<Rightarrow> int \<Rightarrow> bool \<Rightarrow> bytes" where
  "meta_json n_chunks orig stored compressed =
     map of_char
       (''{'' @ json_field ''chunks'' (show_int n_chunks) @ '', ''
        @ json_field ''orig_bytes'' (show_int orig) @ '', ''
        @ json_field ''stored_bytes'' (show_int stored) @ '', ''
        @ json_field ''compressed'' (if compressed then ''true'' else ''false'') @ ''}'')"

text \<open>Lines 157 to 170: the body of the \<open>try\<close> of the chunked write.\<close>

definition put_chunked ::
  "env \<Rightarrow> string \<Rightarrow> int \<Rightarrow> bytes \<Rightarrow> bool \<Rightarrow> redis \<Rightarrow> (exn + unit) \<times> redis" where
  "put_chunked E doc_id orig_size gz_bytes compressed r =
     (if CHUNK_SIZE E = 0 then (Inl ZeroDivisionError, r)
      else
        (let n_chunks = ceil_quot E (int (length gz_bytes)) (CHUNK_SIZE E)
         in pipeline_execute
              (chunk_writes E doc_id gz_bytes n_chunks
               @ [(meta_key doc_id,
                   meta_json n_chunks orig_size (int (length gz_bytes)) compressed)]) r))"

definition put_doc_text ::
  "env \<Rightarrow> real \<Rightarrow> string \<Rightarrow> pystr \<Rightarrow> store \<Rightarrow> (exn + bool) \<times> store" where
  "put_doc_text E now doc_id txt s =
     (if doc_id = [] then (Inr False, s)
      else
        (case utf8_encode txt of
           Inl e \<Rightarrow> (Inl e, s)
         | Inr raw_bytes \<Rightarrow>
             (let (to_store, compressed) = maybe_compress E raw_bytes in
              case REDIS s of
                None \<Rightarrow> (Inr True, s\<lparr>DOC_STORE := (DOC_STORE s)(doc_id \<mapsto> (now, txt))\<rparr>)
              | Some r \<Rightarrow>
                  (case (if int (length to_store) \<le> MAX_SINGLE_KEY E
                         then put_single E doc_id to_store compressed r
                         else (False, r)) of
                     (True, r1) \<Rightarrow> (Inr True, s\<lparr>REDIS := Some r1\<rparr>)
                   | (False, r1) \<Rightarrow>
                       (case put_chunked E doc_id (int (length raw_bytes)) to_store
                               compressed r1 of
                          (Inr _, r2) \<Rightarrow> (Inr True, s\<lparr>REDIS := Some r2\<rparr>)
                        | (Inl _, r2) \<Rightarrow>
                            (Inr True,
                             s\<lparr>REDIS := Some r2,
                               DOC_STORE := (DOC_STORE s)(doc_id \<mapsto> (now, txt))\<rparr>))))))"

subsection \<open>get\_doc\_text\<close>

text \<open>The loop of lines 199 to 204: \<open>Inr None\<close> is the \<open>return ""\<close> at a missing chunk,
  \<open>Inl\<close> an exception of \<open>REDIS.get\<close>.\<close>

fun fetch_chunks :: "string \<Rightarrow> nat list \<Rightarrow> redis \<Rightarrow> (exn + bytes list option) \<times> redis" where
  "fetch_chunks doc_id [] r = (Inr (Some []), r)"
| "fetch_chunks doc_id (i # js) r =
     (case redis_get (chunk_key doc_id i) r of
        (Inl e, r1) \<Rightarrow> (Inl e, r1)
      | (Inr None, r1) \<Rightarrow> (Inr None, r1)
      | (Inr (Some c), r1) \<Rightarrow>
          (case fetch_chunks doc_id js r1 of
             (Inr (Some cs), r2) \<Rightarrow> (Inr (Some (c # cs)), r2)
           | (other, r2) \<Rightarrow> (other, r2)))"

text \<open>\<open>b.decode("utf-8")\<close> inside a handler that returns the empty string.\<close>

definition decode_or_empty :: "bytes \<Rightarrow> pystr" where
  "decode_or_empty b = (case utf8_decode b of Some t \<Rightarrow> t | None \<Rightarrow> [])"

text \<open>Lines 189 to 213: reassembly from the meta record, for a non-empty identifier and
  a configured client. Every exception gives the empty string.\<close>

definition decode_chunked :: "env \<Rightarrow> string \<Rightarrow> redis \<Rightarrow> pystr \<times> redis" where
  "decode_chunked E doc_id r =
     (case redis_get (meta_key doc_id) r of
        (Inl _, r1) \<Rightarrow> ([], r1)
      | (Inr None, r1) \<Rightarrow> ([], r1)
      | (Inr (Some meta_raw), r1) \<Rightarrow>
          (if meta_raw = [] then ([], r1)
           else
             (case json_loads_meta E meta_raw of
                None \<Rightarrow> ([], r1)
              | Some (n, compressed) \<Rightarrow>
                  (case fetch_chunks doc_id [0..<nat n] r1 of
                     (Inr (Some chunks), r2) \<Rightarrow>
                       (let gz_all = concat chunks in
                        if compressed
                        then (case gzip_decompress_bytes E gz_all of
                                Some raw \<Rightarrow> (decode_or_empty raw, r2)
                              | None \<Rightarrow> ([], r2))
                        else (decode_or_empty gz_all, r2))
                   | (_, r2) \<Rightarrow> ([], r2)))))"

definition startswith :: "bytes \<Rightarrow> bytes \<Rightarrow> bool" where
  "startswith b p \<longleftrightarrow> take (length p) b = p"

text \<open>Lines 229 to 246: a value that starts with the marker is decompressed and decoded;
  when either step raises, the whole value is decoded as UTF-8 instead.\<close>

definition decode_single :: "env \<Rightarrow> bytes \<Rightarrow> pystr" where
  "decode_single E raw_bytes =
     (case (if startswith raw_bytes MARKER_COMPRESSED
            then (case gzip_decompress_bytes E (drop (length MARKER_COMPRESSED) raw_bytes) of
                    Some decompressed \<Rightarrow> utf8_decode decompressed
                  | None \<Rightarrow> None)
            else None) of
        Some t \<Rightarrow> t
      | None \<Rightarrow> decode_or_empty raw_bytes)"

text \<open>\<open>_decode_redis_value(raw_val, doc_id)\<close>. The client returns \<open>bytes\<close>
  (\<open>decode_responses=False\<close>), so the normalisation of lines 216 to 227 is the identity.\<close>

definition decode_redis_value ::
  "env \<Rightarrow> bytes option \<Rightarrow> string \<Rightarrow> redis option \<Rightarrow> pystr \<times> redis option" where
  "decode_redis_value E raw_val doc_id R =
     (case raw_val of
        None \<Rightarrow>
          (case R of
             None \<Rightarrow> ([], None)
           | Some r \<Rightarrow>
               (if doc_id = [] then ([], Some r)
                else (let (t, r1) = decode_chunked E doc_id r in (t, Some r1))))
      | Some raw_bytes \<Rightarrow> (decode_single E raw_bytes, R))"

text \<open>Lines 260 to 268: the in-process map, with its time-to-live checked at the read.\<close>

definition get_fallback :: "env \<Rightarrow> real \<Rightarrow> string \<Rightarrow> store \<Rightarrow> pystr \<times> store" where
  "get_fallback E now doc_id s =
     (case DOC_STORE s doc_id of
        Some (ts, txt) \<Rightarrow>
          (if now - ts > real_of_int (DOC_TTL_SECONDS E)
           then ([], s\<lparr>DOC_STORE := (DOC_STORE s)(doc_id := None)\<rparr>)
           else (txt, s))
      | None \<Rightarrow> ([], s))"

definition get_doc_text :: "env \<Rightarrow> real \<Rightarrow> string \<Rightarrow> store \<Rightarrow> pystr \<times> store" where
  "get_doc_text E now doc_id s =
     (if doc_id = [] then ([], s)
      else
        (case REDIS s of
           None \<Rightarrow> get_fallback E now doc_id s
         | Some r \<Rightarrow>
             (case redis_get (single_key doc_id) r of
                (Inl _, r1) \<Rightarrow> get_fallback E now doc_id (s\<lparr>REDIS := Some r1\<rparr>)
              | (Inr raw, r1) \<Rightarrow>
                  (let (result, R2) = decode_redis_value E raw doc_id (Some r1) in
                   if result \<noteq> [] then (result, s\<lparr>REDIS := R2\<rparr>)
                   else get_fallback E now doc_id (s\<lparr>REDIS := R2\<rparr>)))))"

subsection \<open>redis\_healthy\<close>

definition redis_healthy :: "store \<Rightarrow> bool \<times> store" where
  "redis_healthy s =
     (case REDIS s of
        None \<Rightarrow> (False, s)
      | Some r \<Rightarrow>
          (case redis_ping r of
             (Inr b, r1) \<Rightarrow> (b, s\<lparr>REDIS := Some r1\<rparr>)
           | (Inl _, r1) \<Rightarrow> (False, s\<lparr>REDIS := Some r1\<rparr>)))"

subsection \<open>Distinct chunk indices give distinct chunk keys\<close>

lemma digit_char_inj:
  assumes "a < 10" and "b < 10" and "digit_char a = digit_char b"
  shows "a = b"
proof -
  from assms(3) have "(48 + a) mod 256 = (48 + b) mod 256"
    unfolding digit_char_def by (simp only: char_of_quasi_inj)
  with assms(1,2) show ?thesis by simp
qed

lemma show_nat_small: "n < 10 \<Longrightarrow> show_nat n = [digit_char n]"
  by (subst show_nat.simps) simp

lemma show_nat_large:
  "\<not> n < 10 \<Longrightarrow> show_nat n = show_nat (n div 10) @ [digit_char (n mod 10)]"
  by (subst show_nat.simps) simp

lemma show_nat_nonempty: "show_nat n \<noteq> []"
  by (subst show_nat.simps) simp

lemma show_nat_inj: "show_nat a = show_nat b \<Longrightarrow> a = b"
proof (induction a arbitrary: b rule: show_nat.induct)
  case (1 n)
  show ?case
  proof (cases "n < 10")
    case n: True
    show ?thesis
    proof (cases "b < 10")
      case True
      with n "1.prems" show ?thesis
        by (auto simp: show_nat_small dest: digit_char_inj)
    next
      case False
      with n "1.prems" show_nat_nonempty[of "b div 10"] show ?thesis
        by (cases "show_nat (b div 10)") (auto simp: show_nat_small show_nat_large)
    qed
  next
    case n: False
    show ?thesis
    proof (cases "b < 10")
      case True
      with n "1.prems" show_nat_nonempty[of "n div 10"] show ?thesis
        by (cases "show_nat (n div 10)") (auto simp: show_nat_small show_nat_large)
    next
      case b: False
      with n "1.prems" have e1: "show_nat (n div 10) = show_nat (b div 10)"
        and e2: "digit_char (n mod 10) = digit_char (b mod 10)"
        by (auto simp: show_nat_large)
      from "1.IH"[OF n e1] have "n div 10 = b div 10" .
      moreover from e2 have "n mod 10 = b mod 10"
        by (auto dest!: digit_char_inj[rotated 2])
      ultimately show ?thesis by (metis div_mult_mod_eq)
    qed
  qed
qed

lemma chunk_key_inj: "chunk_key d i = chunk_key d j \<Longrightarrow> i = j"
  by (auto simp: chunk_key_def dest: show_nat_inj)

subsection \<open>clear\_doc\<close>

lemma delete_one_decreases:
  assumes "redis_delete [k] r = (Inr n, r1)" and "n \<noteq> 0"
  shows "fcard (fmdom (kv r1)) < fcard (fmdom (kv r))"
proof -
  from assms have mem: "k |\<in>| fmdom (kv r)" and kv: "kv r1 = fmdrop k (kv r)"
    by (auto simp: redis_delete_def tick_def split: if_splits)
  have "fcard (fmdom (kv r) |-| {|k|}) < fcard (fmdom (kv r))"
    using mem by (rule fcard_fminus1_less)
  with kv show ?thesis by simp
qed

text \<open>Lines 288 to 293: delete chunk keys by rising index until one was not there. The
  key space is finite and each round removes a key, so the loop ends.\<close>

function clear_probe :: "string \<Rightarrow> nat \<Rightarrow> redis \<Rightarrow> (exn + unit) \<times> redis" where
  "clear_probe doc_id i r =
     (case redis_delete [chunk_key doc_id i] r of
        (Inl e, r1) \<Rightarrow> (Inl e, r1)
      | (Inr n, r1) \<Rightarrow> if n = 0 then (Inr (), r1) else clear_probe doc_id (Suc i) r1)"
  by pat_completeness auto
termination
  by (relation "measure (\<lambda>(doc_id, i, r). fcard (fmdom (kv r)))")
     (auto dest: delete_one_decreases[OF sym])

declare clear_probe.simps [simp del]

text \<open>Lines 281 to 293: the inner \<open>try\<close> and its handler.\<close>

definition clear_chunks :: "env \<Rightarrow> string \<Rightarrow> bytes \<Rightarrow> redis \<Rightarrow> (exn + unit) \<times> redis" where
  "clear_chunks E doc_id meta_raw r =
     (case json_loads_meta E meta_raw of
        None \<Rightarrow> clear_probe doc_id 0 r
      | Some (cnt, _) \<Rightarrow>
          (let keys = map (chunk_key doc_id) [0..<nat cnt] in
           if keys = [] then (Inr (), r)
           else
             (case redis_delete keys r of
                (Inr _, r1) \<Rightarrow> (Inr (), r1)
              | (Inl _, r1) \<Rightarrow> clear_probe doc_id 0 r1)))"

text \<open>Lines 276 to 297; the result is the final value of \<open>success\<close>.\<close>

definition clear_redis :: "env \<Rightarrow> string \<Rightarrow> redis \<Rightarrow> bool \<times> redis" where
  "clear_redis E doc_id r =
     (case redis_delete [single_key doc_id] r of
        (Inl _, r1) \<Rightarrow> (False, r1)
      | (Inr _, r1) \<Rightarrow>
          (case redis_get (meta_key doc_id) r1 of
             (Inl _, r2) \<Rightarrow> (False, r2)
           | (Inr None, r2) \<Rightarrow> (True, r2)
           | (Inr (Some meta_raw), r2) \<Rightarrow>
               (if meta_raw = [] then (True, r2)
                else
                  (case clear_chunks E doc_id meta_raw r2 of
                     (Inl _, r3) \<Rightarrow> (False, r3)
                   | (Inr _, r3) \<Rightarrow>
                       (case redis_delete [meta_key doc_id] r3 of
                          (Inl _, r4) \<Rightarrow> (False, r4)
                        | (Inr _, r4) \<Rightarrow> (True, r4))))))"

definition clear_doc :: "env \<Rightarrow> string \<Rightarrow> store \<Rightarrow> bool \<times> store" where
  "clear_doc E doc_id s =
     (if doc_id = [] then (False, s)
      else
        (let (success, R) =
               (case REDIS s of
                  None \<Rightarrow> (True, None)
                | Some r \<Rightarrow> (let (ok, r1) = clear_redis E doc_id r in (ok, Some r1)))
         in (success, \<lparr>REDIS = R, DOC_STORE = (DOC_STORE s)(doc_id := None)\<rparr>)))"

subsection \<open>build\_chunks\_from\_redis\<close>

text \<open>
  A chunk descriptor. Of the eight keys of the source's dictionary, the three that
  describe the storage layout are kept; \<open>chunk_id\<close>, \<open>start_token\<close> and \<open>end_token\<close>
  are always \<open>None\<close>, and \<open>text_preview\<close> and \<open>token_count\<close> are computed inside their
  own handlers, which never change the list, the other keys or the storage.
\<close>

record chunk_desc =
  chunk_index :: nat
  redis_key :: string
  stored_bytes :: nat

definition probe_set :: "string \<Rightarrow> nat \<Rightarrow> redis \<Rightarrow> nat set" where
  "probe_set doc_id n r = {m. n \<le> m \<and> chunk_key doc_id m |\<in>| fmdom (kv r)}"

lemma finite_probe_set: "finite (probe_set doc_id n r)"
proof -
  have "probe_set doc_id n r \<subseteq> chunk_key doc_id -` fset (fmdom (kv r))"
    by (auto simp: probe_set_def)
  moreover have "finite (chunk_key doc_id -` fset (fmdom (kv r)))"
    by (rule finite_vimageI) (auto intro!: injI dest: chunk_key_inj)
  ultimately show ?thesis by (rule finite_subset)
qed

lemma exists_step_decreases:
  assumes "redis_exists (chunk_key doc_id n) r = (Inr True, r1)"
  shows "card (probe_set doc_id (Suc n) r1) < card (probe_set doc_id n r)"
proof -
  from assms have kv: "kv r1 = kv r" and mem: "chunk_key doc_id n |\<in>| fmdom (kv r)"
    by (auto simp: redis_exists_def tick_def split: if_splits)
  have "n \<in> probe_set doc_id n r" "n \<notin> probe_set doc_id (Suc n) r1"
    using mem by (auto simp: probe_set_def)
  moreover have "probe_set doc_id (Suc n) r1 \<subseteq> probe_set doc_id n r"
    using kv by (auto simp: probe_set_def)
  ultimately have "probe_set doc_id (Suc n) r1 \<subset> probe_set doc_id n r"
    by blast
  then show ?thesis by (rule psubset_card_mono[OF finite_probe_set])
qed

text \<open>Lines 397 to 399: count chunk keys by rising index until one is missing. Chunk
  keys of distinct indices are distinct and the key space is finite, so the loop ends.\<close>

function probe_count :: "string \<Rightarrow> nat \<Rightarrow> redis \<Rightarrow> (exn + nat) \<times> redis" where
  "probe_count doc_id n r =
     (case redis_exists (chunk_key doc_id n) r of
        (Inl e, r1) \<Rightarrow> (Inl e, r1)
      | (Inr b, r1) \<Rightarrow> if b then probe_count doc_id (Suc n) r1 else (Inr n, r1))"
  by pat_completeness auto
termination
  by (relation "measure (\<lambda>(doc_id, n, r). card (probe_set doc_id n r))")
     (auto dest: exists_step_decreases[OF sym])

declare probe_count.simps [simp del]

text \<open>Lines 395 to 399: no usable meta record; \<open>Inr None\<close> is the early
  \<open>return out\<close> when chunk 0 is not there.\<close>

definition probe_chunks :: "string \<Rightarrow> redis \<Rightarrow> (exn + nat option) \<times> redis" where
  "probe_chunks doc_id r =
     (case redis_exists (chunk_key doc_id 0) r of
        (Inl e, r1) \<Rightarrow> (Inl e, r1)
      | (Inr False, r1) \<Rightarrow> (Inr None, r1)
      | (Inr True, r1) \<Rightarrow>
          (case probe_count doc_id 0 r1 of
             (Inl e, r2) \<Rightarrow> (Inl e, r2)
           | (Inr n, r2) \<Rightarrow> (Inr (Some n), r2)))"

text \<open>Lines 385 to 399: the number of chunks, from the meta record when it is there and
  not empty (0 when it cannot be read), by probing otherwise.\<close>

definition count_chunks :: "env \<Rightarrow> string \<Rightarrow> redis \<Rightarrow> (exn + nat option) \<times> redis" where
  "count_chunks E doc_id r =
     (case redis_get (meta_key doc_id) r of
        (Inl e, r1) \<Rightarrow> (Inl e, r1)
      | (Inr None, r1) \<Rightarrow> probe_chunks doc_id r1
      | (Inr (Some meta_raw), r1) \<Rightarrow>
          (if meta_raw = [] then probe_chunks doc_id r1
           else
             (case json_loads_meta E meta_raw of
                Some (n, _) \<Rightarrow> (Inr (Some (nat n)), r1)
              | None \<Rightarrow> (Inr (Some 0), r1))))"

text \<open>Lines 402 to 430: one descriptor per index; a chunk that is not there has
  \<open>stored_bytes\<close> 0.\<close>

fun build_entries :: "string \<Rightarrow> nat list \<Rightarrow> redis \<Rightarrow> (exn + chunk_desc list) \<times> redis" where
  "build_entries doc_id [] r = (Inr [], r)"
| "build_entries doc_id (i # js) r =
     (case redis_get (chunk_key doc_id i) r of
        (Inl e, r1) \<Rightarrow> (Inl e, r1)
      | (Inr val, r1) \<Rightarrow>
          (case build_entries doc_id js r1 of
             (Inl e, r2) \<Rightarrow> (Inl e, r2)
           | (Inr ds, r2) \<Rightarrow>
               (Inr (\<lparr>chunk_index = i, redis_key = chunk_key doc_id i,
                      stored_bytes = (case val of None \<Rightarrow> 0 | Some v \<Rightarrow> length v)\<rparr> # ds),
                r2)))"

definition build_chunks_from_redis :: "env \<Rightarrow> string \<Rightarrow> store \<Rightarrow> chunk_desc list \<times> store" where
  "build_chunks_from_redis E doc_id s =
     (if doc_id = [] then ([], s)
      else
        (case REDIS s of
           None \<Rightarrow> ([], s)
         | Some r \<Rightarrow>
             (case redis_get (single_key doc_id) r of
                (Inl _, r1) \<Rightarrow> ([], s\<lparr>REDIS := Some r1\<rparr>)
              | (Inr (Some raw), r1) \<Rightarrow>
                  ([\<lparr>chunk_index = 0, redis_key = single_key doc_id,
                     stored_bytes = length raw\<rparr>], s\<lparr>REDIS := Some r1\<rparr>)
              | (Inr None, r1) \<Rightarrow>
                  (case count_chunks E doc_id r1 of
                     (Inl _, r2) \<Rightarrow> ([], s\<lparr>REDIS := Some r2\<rparr>)
                   | (Inr None, r2) \<Rightarrow> ([], s\<lparr>REDIS := Some r2\<rparr>)
                   | (Inr (Some n_chunks), r2) \<Rightarrow>
                       (case build_entries doc_id [0..<n_chunks] r2 of
                          (Inl _, r3) \<Rightarrow> ([], s\<lparr>REDIS := Some r3\<rparr>)
                        | (Inr out, r3) \<Rightarrow> (out, s\<lparr>REDIS := Some r3\<rparr>))))))"

subsection \<open>A name for the key space after clear\_doc\<close>

text \<open>Used to state the lemmas about \<open>clear_doc\<close>: the key space without the single key,
  the chunk keys of the indices below \<open>k\<close> and the meta key.\<close>

definition cleared :: "string \<Rightarrow> nat \<Rightarrow> keyspace \<Rightarrow> keyspace" where
  "cleared d k m =
     fmdrop (meta_key d) (snd (del_keys (map (chunk_key d) [0..<k]) (fmdrop (single_key d) m)))"

subsection \<open>Example configurations\<close>

text \<open>The default configuration of the module, with library functions that always
  raise; the examples below that use it never reach a library call. In the example
  configurations \<open>float_ceil_quot\<close> is the exact ceiling; the one example that
  consults it divides 5 by \<open>- 1\<close>, where the float quotient \<open>- 5.0\<close> is exact.\<close>

definition env0 :: env where
  "env0 = \<lparr>DOC_TTL_SECONDS = 86400, COMPRESS_THRESHOLD = 32768, CHUNK_SIZE = 4194304,
           MAX_SINGLE_KEY = 104857600, gzip_compress_bytes = (\<lambda>b. None),
           gzip_decompress_bytes = (\<lambda>b. None), json_loads_meta = (\<lambda>b. None),
           float_ceil_quot = ceil_div\<rparr>"

text \<open>A configuration with a chunk size of 2 bytes and a single-key limit of 4 bytes,
  an empty Redis server that never fails, and a five-byte text.\<close>

definition env_small :: env where
  "env_small = \<lparr>DOC_TTL_SECONDS = 86400, COMPRESS_THRESHOLD = 32768, CHUNK_SIZE = 2,
           MAX_SINGLE_KEY = 4, gzip_compress_bytes = (\<lambda>b. None),
           gzip_decompress_bytes = (\<lambda>b. None), json_loads_meta = (\<lambda>b. None),
           float_ceil_quot = ceil_div\<rparr>"

definition redis_empty :: redis where
  "redis_empty = \<lparr>kv = fmempty, faults = []\<rparr>"

definition hello :: pystr where
  "hello = [104, 101, 108, 108, 111]"

text \<open>A stand-in for the gzip codec, for examples only: it puts the two magic bytes of
  a gzip stream in front of the data instead of deflating it, and, like
  \<open>gzip.decompress\<close>, gives the empty bytes for the empty input and fails on input
  that does not start with the magic bytes. \<open>env_toy\<close> uses it with a threshold of 8
  bytes, a single-key limit of 16 bytes and a chunk size of 4 bytes.\<close>

definition toy_gzip :: "bytes \<Rightarrow> bytes option" where
  "toy_gzip b = Some ([0x1F, 0x8B] @ b)"

definition toy_gunzip :: "bytes \<Rightarrow> bytes option" where
  "toy_gunzip b =
     (if b = [] then Some []
      else if take 2 b = [0x1F, 0x8B] then Some (drop 2 b)
      else None)"

definition env_toy :: env where
  "env_toy = \<lparr>DOC_TTL_SECONDS = 86400, COMPRESS_THRESHOLD = 8, CHUNK_SIZE = 4,
              MAX_SINGLE_KEY = 16, gzip_compress_bytes = toy_gzip,
              gzip_decompress_bytes = toy_gunzip, json_loads_meta = (\<lambda>b. None),
              float_ceil_quot = ceil_div\<rparr>"

text \<open>The three chunks of the five-byte text for a chunk size of 2.\<close>

definition chunks_of_hello :: keyspace where
  "chunks_of_hello = fmupd ''doc:d:chunk:2'' [0x6F]
                    (fmupd ''doc:d:chunk:1'' [0x6C, 0x6C]
                    (fmupd ''doc:d:chunk:0'' [0x68, 0x65] fmempty))"

text \<open>A configuration in which a four-byte text is compressed by the stand-in codec to
  six bytes and written as two chunks, with a reader of meta records that knows the
  one record this write produces.\<close>

definition env_tiny :: env where
  "env_tiny = \<lparr>DOC_TTL_SECONDS = 86400, COMPRESS_THRESHOLD = 4, CHUNK_SIZE = 4,
               MAX_SINGLE_KEY = 4, gzip_compress_bytes = toy_gzip,
               gzip_decompress_bytes = toy_gunzip,
               json_loads_meta =
                 (\<lambda>b. if b = meta_json 2 4 6 True then Some (2, True) else None),
               float_ceil_quot = ceil_div\<rparr>"

text \<open>The configuration \<open>env_small\<close> with a chunk size of \<open>- 1\<close>, and a reader of meta
  records that knows the record which the chunked write of a five-byte text produces
  there. \<open>math.ceil(5 / -1)\<close> is \<open>- 5\<close>: the float quotient \<open>- 5.0\<close> is exact.\<close>

definition env_neg :: env where
  "env_neg = env_small\<lparr>CHUNK_SIZE := - 1,
               json_loads_meta :=
                 (\<lambda>b. if b = meta_json (- 5) 5 5 False then Some (- 5, False) else None)\<rparr>"

section \<open>Properties\<close>

subsection \<open>Calls of a client that does not fail\<close>

lemma tick_no_faults: "faults r = [] \<Longrightarrow> tick r = r"
  by (simp add: tick_def)

lemma raises_no_faults: "faults r = [] \<Longrightarrow> \<not> raises r"
  by (simp add: raises_def)

lemma redis_get_ok: "faults r = [] \<Longrightarrow> redis_get k r = (Inr (fmlookup (kv r) k), r)"
  by (simp add: redis_get_def tick_no_faults raises_no_faults)

lemma redis_exists_ok: "faults r = [] \<Longrightarrow> redis_exists k r = (Inr (k |\<in>| fmdom (kv r)), r)"
  by (simp add: redis_exists_def tick_no_faults raises_no_faults)

lemma redis_setex_ok:
  "faults r = [] \<Longrightarrow> redis_setex k ttl v r = (Inr (), r\<lparr>kv := fmupd k v (kv r)\<rparr>)"
  by (simp add: redis_setex_def tick_def raises_no_faults)

lemma redis_delete_ok:
  "faults r = [] \<Longrightarrow>
   redis_delete ks r = (Inr (fst (del_keys ks (kv r))), r\<lparr>kv := snd (del_keys ks (kv r))\<rparr>)"
  by (simp add: redis_delete_def tick_def raises_no_faults)

lemma pipeline_execute_ok:
  "faults r = [] \<Longrightarrow> pipeline_execute ws r = (Inr (), r\<lparr>kv := apply_writes ws (kv r)\<rparr>)"
  by (simp add: pipeline_execute_def tick_def raises_no_faults)

lemma del_keys_dom: "fmdom (snd (del_keys ks m)) = fmdom m |-| fset_of_list ks"
  by (induction ks arbitrary: m) (auto simp: case_prod_unfold Let_def)

lemma del_keys_lookup:
  "fmlookup (snd (del_keys ks m)) k = (if k \<in> set ks then None else fmlookup m k)"
  by (induction ks arbitrary: m) (auto simp: case_prod_unfold Let_def)

subsection \<open>UTF-8: decoding inverts encoding\<close>

lemma unat_byte: "n < 256 \<Longrightarrow> unat (of_nat n :: byte) = n"
  by (simp add: unat_of_nat)

lemma split3: "c div 4096 * 4096 + c div 64 mod 64 * 64 + c mod 64 = (c::nat)"
proof -
  define h where "h = c div 64"
  define q where "q = h div 64"
  define m1 where "m1 = h mod 64"
  define m0 where "m0 = c mod 64"
  have e: "c div 4096 = q" by (simp add: q_def h_def div_mult2_eq)
  have a: "q * 64 + m1 = h" by (simp add: q_def m1_def)
  have b: "h * 64 + m0 = c" by (simp add: h_def m0_def)
  have "q * 4096 + m1 * 64 + m0 = c" using a b by linarith
  then show ?thesis by (simp only: e m1_def[symmetric] h_def[symmetric] m0_def[symmetric])
qed

lemma split4:
  "c div 262144 * 262144 + c div 4096 mod 64 * 4096 + c div 64 mod 64 * 64 + c mod 64 = (c::nat)"
proof -
  define k where "k = c div 4096"
  define q where "q = k div 64"
  define m2 where "m2 = k mod 64"
  define rest where "rest = c div 64 mod 64 * 64 + c mod 64"
  have e: "c div 262144 = q" by (simp add: q_def k_def div_mult2_eq)
  have a: "q * 64 + m2 = k" by (simp add: q_def m2_def)
  have b: "k * 4096 + rest = c" using split3[of c] by (simp only: k_def rest_def add.assoc)
  have "q * 262144 + m2 * 4096 + rest = c" using a b by linarith
  then show ?thesis by (simp only: e m2_def[symmetric] k_def[symmetric] rest_def add.assoc)
qed

lemma lead3: "c < 0x10000 \<Longrightarrow> 0xE0 + c div 4096 < (0xF0::nat)"
  by (simp add: less_mult_imp_div_less)

lemma lead4: "c < 0x110000 \<Longrightarrow> 0xF0 + c div 262144 < (0xF5::nat)"
  by (simp add: less_mult_imp_div_less)

lemma decode_cp1:
  assumes "c < 0x80"
  shows "utf8_decode (encode_cp c @ bs) = map_option (Cons c) (utf8_decode bs)"
proof -
  define B0 :: byte where "B0 = of_nat c"
  have u0: "unat B0 = c" unfolding B0_def using assms by (intro unat_byte) simp
  have enc: "encode_cp c = [B0]" using assms by (simp add: encode_cp_def B0_def)
  show ?thesis unfolding enc using assms by (simp add: u0)
qed

lemma decode_cp2:
  assumes "\<not> c < 0x80" "c < 0x800"
  shows "utf8_decode (encode_cp c @ bs) = map_option (Cons c) (utf8_decode bs)"
proof -
  define B0 :: byte where "B0 = of_nat (0xC0 + c div 64)"
  define B1 :: byte where "B1 = of_nat (0x80 + c mod 64)"
  have u0: "unat B0 = 0xC0 + c div 64"
    unfolding B0_def using assms by (intro unat_byte) simp
  have u1: "unat B1 = 0x80 + c mod 64"
    unfolding B1_def by (intro unat_byte) simp
  have enc: "encode_cp c = [B0, B1]"
    using assms by (simp add: encode_cp_def B0_def B1_def)
  have lead: "0xC2 \<le> unat B0" "unat B0 < 0xE0"
    using assms by (simp_all add: u0)
  have cont: "is_cont B1"
    by (simp add: is_cont_def u1)
  have val: "(unat B0 - 0xC0) * 64 + (unat B1 - 0x80) = c"
    by (simp only: u0 u1 add_diff_cancel_left' div_mult_mod_eq)
  show ?thesis
    unfolding enc using lead cont by (simp add: val Let_def)
qed

lemma decode_cp3:
  assumes "\<not> c < 0x800" "c < 0x10000" "is_scalar c"
  shows "utf8_decode (encode_cp c @ bs) = map_option (Cons c) (utf8_decode bs)"
proof -
  define B0 :: byte where "B0 = of_nat (0xE0 + c div 4096)"
  define B1 :: byte where "B1 = of_nat (0x80 + c div 64 mod 64)"
  define B2 :: byte where "B2 = of_nat (0x80 + c mod 64)"
  have u0: "unat B0 = 0xE0 + c div 4096"
    unfolding B0_def using lead3[OF assms(2)] by (intro unat_byte) simp
  have u1: "unat B1 = 0x80 + c div 64 mod 64"
    unfolding B1_def by (intro unat_byte) simp
  have u2: "unat B2 = 0x80 + c mod 64"
    unfolding B2_def by (intro unat_byte) simp
  have enc: "encode_cp c = [B0, B1, B2]"
    using assms by (simp add: encode_cp_def B0_def B1_def B2_def)
  have lead: "0xE0 \<le> unat B0" "unat B0 < 0xF0"
    using lead3[OF assms(2)] by (simp_all add: u0)
  have cont: "is_cont B1" "is_cont B2"
    by (simp_all add: is_cont_def u1 u2)
  have val: "(unat B0 - 0xE0) * 4096 + (unat B1 - 0x80) * 64 + (unat B2 - 0x80) = c"
    by (simp only: u0 u1 u2 add_diff_cancel_left' split3)
  show ?thesis
    unfolding enc using assms lead cont by (simp add: val Let_def)
qed

lemma decode_cp4:
  assumes "\<not> c < 0x10000" "is_scalar c"
  shows "utf8_decode (encode_cp c @ bs) = map_option (Cons c) (utf8_decode bs)"
proof -
  have lt: "c < 0x110000" using assms by (simp add: is_scalar_def)
  define B0 :: byte where "B0 = of_nat (0xF0 + c div 262144)"
  define B1 :: byte where "B1 = of_nat (0x80 + c div 4096 mod 64)"
  define B2 :: byte where "B2 = of_nat (0x80 + c div 64 mod 64)"
  define B3 :: byte where "B3 = of_nat (0x80 + c mod 64)"
  have u0: "unat B0 = 0xF0 + c div 262144"
    unfolding B0_def using lead4[OF lt] by (intro unat_byte) simp
  have u1: "unat B1 = 0x80 + c div 4096 mod 64"
    unfolding B1_def by (intro unat_byte) simp
  have u2: "unat B2 = 0x80 + c div 64 mod 64"
    unfolding B2_def by (intro unat_byte) simp
  have u3: "unat B3 = 0x80 + c mod 64"
    unfolding B3_def by (intro unat_byte) simp
  have enc: "encode_cp c = [B0, B1, B2, B3]"
    using assms by (simp add: encode_cp_def B0_def B1_def B2_def B3_def)
  have lead: "0xF0 \<le> unat B0" "unat B0 < 0xF5"
    using lead4[OF lt] by (simp_all add: u0)
  have cont: "is_cont B1" "is_cont B2" "is_cont B3"
    by (simp_all add: is_cont_def u1 u2 u3)
  have val: "(unat B0 - 0xF0) * 262144 + (unat B1 - 0x80) * 4096
               + (unat B2 - 0x80) * 64 + (unat B3 - 0x80) = c"
    by (simp only: u0 u1 u2 u3 add_diff_cancel_left' split4)
  show ?thesis
    unfolding enc using assms lead cont by (simp add: val Let_def)
qed

lemma decode_cp:
  "is_scalar c \<Longrightarrow> utf8_decode (encode_cp c @ bs) = map_option (Cons c) (utf8_decode bs)"
  using decode_cp1 decode_cp2 decode_cp3 decode_cp4 by blast

lemma utf8_roundtrip: "valid_text t \<Longrightarrow> utf8_decode (utf8 t) = Some t"
  by (induction t) (simp_all add: utf8_def valid_text_def decode_cp)



subsection \<open>Key names, pipelines and slices\<close>

lemma single_ne_meta: "single_key d \<noteq> meta_key d"
  by (simp add: single_key_def meta_key_def META_SUFFIX_def)

lemma single_ne_chunk: "single_key d \<noteq> chunk_key d i"
  by (simp add: single_key_def chunk_key_def)

lemma meta_ne_chunk: "meta_key d \<noteq> chunk_key d i"
  by (simp add: meta_key_def chunk_key_def META_SUFFIX_def)

lemma chunk_key_eq_iff: "chunk_key d i = chunk_key d j \<longleftrightarrow> i = j"
  using chunk_key_inj by blast

lemma apply_writes_Nil: "apply_writes [] m = m"
  by (simp add: apply_writes_def)

lemma apply_writes_snoc: "apply_writes (ws @ [(k, v)]) m = fmupd k v (apply_writes ws m)"
  by (simp add: apply_writes_def)

lemma lookup_apply_writes_other:
  "k \<notin> fst ` set ws \<Longrightarrow> fmlookup (apply_writes ws m) k = fmlookup m k"
  by (induction ws rule: rev_induct) (auto simp: apply_writes_Nil apply_writes_snoc)

lemma lookup_chunk_writes:
  "fmlookup (apply_writes (chunk_writes E d bs n) m) (chunk_key d j)
     = (if j < nat n then Some (slice_chunk E bs j) else fmlookup m (chunk_key d j))"
proof -
  have "fmlookup (apply_writes (map (\<lambda>i. (chunk_key d i, slice_chunk E bs i)) [0..<k]) m)
          (chunk_key d j)
        = (if j < k then Some (slice_chunk E bs j) else fmlookup m (chunk_key d j))" for k
    by (induction k) (auto simp: apply_writes_Nil apply_writes_snoc chunk_key_eq_iff)
  then show ?thesis by (simp add: chunk_writes_def)
qed

lemma lookup_chunk_writes_other:
  assumes "\<forall>i. k \<noteq> chunk_key d i"
  shows "fmlookup (apply_writes (chunk_writes E d bs n) m) k = fmlookup m k"
proof (rule lookup_apply_writes_other)
  show "k \<notin> fst ` set (chunk_writes E d bs n)"
    using assms by (force simp: chunk_writes_def)
qed

lemma concat_slices:
  "concat (map (\<lambda>i. take c (drop (i * c) xs)) [0..<n]) = take (n * c) xs"
proof (induction n)
  case 0
  show ?case by simp
next
  case (Suc n)
  have "take (n * c) xs @ take c (drop (n * c) xs) = take (n * c + c) xs"
    by (simp add: take_add)
  with Suc show ?case by (simp add: add.commute)
qed

lemma meta_json_nonempty: "meta_json n a b c \<noteq> []"
  by (simp add: meta_json_def)

lemma ceil_div_real: "ceil_div a b = \<lceil>real_of_int a / real_of_int b\<rceil>"
  by (simp add: ceil_div_def ceiling_divide_eq_div)

lemma ceil_div_upper:
  assumes "0 < b"
  shows "a \<le> ceil_div a b * b"
proof -
  have "real_of_int a \<le> real_of_int (ceil_div a b) * real_of_int b"
    unfolding ceil_div_real using assms by (intro ceiling_divide_upper) simp
  then have "real_of_int a \<le> real_of_int (ceil_div a b * b)" by simp
  then show ?thesis by (simp only: of_int_le_iff)
qed


lemma ceil_div_nonneg: "0 \<le> a \<Longrightarrow> 0 < b \<Longrightarrow> 0 \<le> ceil_div a b"
  using div_nonpos_pos_le0[of "- a" b] by (simp add: ceil_div_def)

lemma slices_cover:
  assumes "0 < CHUNK_SIZE E"
  shows "concat (map (slice_chunk E bs) [0..<nat (ceil_div (int (length bs)) (CHUNK_SIZE E))]) = bs"
proof -
  define c where "c = nat (CHUNK_SIZE E)"
  define n where "n = nat (ceil_div (int (length bs)) (CHUNK_SIZE E))"
  have n0: "0 \<le> ceil_div (int (length bs)) (CHUNK_SIZE E)"
    using assms by (intro ceil_div_nonneg) simp_all
  have c_int: "int c = CHUNK_SIZE E" using assms by (simp add: c_def)
  have n_int: "int n = ceil_div (int (length bs)) (CHUNK_SIZE E)" using n0 by (simp add: n_def)
  have "int (length bs) \<le> ceil_div (int (length bs)) (CHUNK_SIZE E) * CHUNK_SIZE E"
    using assms by (rule ceil_div_upper)
  then have "int (length bs) \<le> int (n * c)"
    unfolding of_nat_mult n_int c_int .
  then have le: "length bs \<le> n * c" by (simp only: of_nat_le_iff)
  have "concat (map (slice_chunk E bs) [0..<n]) = take (n * c) bs"
    unfolding slice_chunk_def c_def[symmetric] by (rule concat_slices)
  with le show ?thesis unfolding n_def by simp
qed

lemma slice_length: "length (slice_chunk E bs i) \<le> nat (CHUNK_SIZE E)"
  by (simp add: slice_chunk_def)

subsection \<open>Fallback mode\<close>

text \<open>
  Claim C8. With no Redis client configured (\<open>REDIS\<close> is \<open>None\<close>), for a non-empty
  identifier: \<open>put_doc_text\<close> of an encodable text stores the pair of the current time
  and the uncompressed text in \<open>DOC_STORE\<close> and returns \<open>True\<close>; \<open>get_doc_text\<close> reads
  the entry and checks its age at that moment: an entry older than \<open>DOC_TTL_SECONDS\<close>
  is removed and the empty string returned, a younger one is returned as it is, and a
  missing one gives the empty string; \<open>clear_doc\<close> removes the entry and returns
  \<open>True\<close>; \<open>redis_healthy\<close> returns \<open>False\<close>.
\<close>

theorem fallback_mode:
  assumes "REDIS s = None" and "doc_id \<noteq> []" and "valid_text txt"
  shows "put_doc_text E t0 doc_id txt s
           = (Inr True, s\<lparr>DOC_STORE := (DOC_STORE s)(doc_id \<mapsto> (t0, txt))\<rparr>)
       \<and> get_doc_text E now doc_id s
           = (case DOC_STORE s doc_id of
                None \<Rightarrow> ([], s)
              | Some (ts, old) \<Rightarrow>
                  if now - ts > real_of_int (DOC_TTL_SECONDS E)
                  then ([], s\<lparr>DOC_STORE := (DOC_STORE s)(doc_id := None)\<rparr>)
                  else (old, s))
       \<and> clear_doc E doc_id s = (True, s\<lparr>DOC_STORE := (DOC_STORE s)(doc_id := None)\<rparr>)
       \<and> redis_healthy s = (False, s)"
proof -
  have put: "put_doc_text E t0 doc_id txt s
           = (Inr True, s\<lparr>DOC_STORE := (DOC_STORE s)(doc_id \<mapsto> (t0, txt))\<rparr>)"
    using assms by (simp add: put_doc_text_def utf8_encode_def case_prod_unfold)
  have get: "get_doc_text E now doc_id s = get_fallback E now doc_id s"
    using assms by (simp add: get_doc_text_def)
  have clear: "clear_doc E doc_id s
           = (True, s\<lparr>DOC_STORE := (DOC_STORE s)(doc_id := None)\<rparr>)"
    using assms by (simp add: clear_doc_def)
  have health: "redis_healthy s = (False, s)"
    using assms by (simp add: redis_healthy_def)
  show ?thesis
    unfolding put get clear health
    by (simp add: get_fallback_def split: option.splits)
qed

theorem fallback_mode_witness:
  "put_doc_text env0 1000 ''d1'' [104, 105] \<lparr>REDIS = None, DOC_STORE = Map.empty\<rparr>
     = (Inr True, \<lparr>REDIS = None, DOC_STORE = [''d1'' \<mapsto> (1000, [104, 105])]\<rparr>)
   \<and> get_doc_text env0 2000 ''d1''
         \<lparr>REDIS = None, DOC_STORE = [''d1'' \<mapsto> (1000, [104, 105])]\<rparr>
     = ([104, 105], \<lparr>REDIS = None, DOC_STORE = [''d1'' \<mapsto> (1000, [104, 105])]\<rparr>)
   \<and> get_doc_text env0 90000 ''d1''
         \<lparr>REDIS = None, DOC_STORE = [''d1'' \<mapsto> (1000, [104, 105])]\<rparr>
     = ([], \<lparr>REDIS = None, DOC_STORE = Map.empty\<rparr>)
   \<and> clear_doc env0 ''d1'' \<lparr>REDIS = None, DOC_STORE = [''d1'' \<mapsto> (1000, [104, 105])]\<rparr>
     = (True, \<lparr>REDIS = None, DOC_STORE = Map.empty\<rparr>)
   \<and> redis_healthy \<lparr>REDIS = None, DOC_STORE = Map.empty\<rparr>
     = (False, \<lparr>REDIS = None, DOC_STORE = Map.empty\<rparr>)"
  using fallback_mode[of "\<lparr>REDIS = None, DOC_STORE = Map.empty\<rparr>" "''d1''" "[104, 105]"
          env0 1000 0]
        fallback_mode[of "\<lparr>REDIS = None, DOC_STORE = [''d1'' \<mapsto> (1000, [104, 105])]\<rparr>"
          "''d1''" "[104, 105]" env0 0 2000]
        fallback_mode[of "\<lparr>REDIS = None, DOC_STORE = [''d1'' \<mapsto> (1000, [104, 105])]\<rparr>"
          "''d1''" "[104, 105]" env0 0 90000]
  by (simp add: valid_text_def is_scalar_def env0_def)

subsection \<open>The two write paths on a client that does not fail\<close>

lemma put_single_ok:
  assumes "faults r = []"
  shows "put_single E d payload compressed r
           = (True, r\<lparr>kv := fmdrop (meta_key d)
                              (fmupd (single_key d) (single_payload payload compressed) (kv r))\<rparr>)"
  using assms
  by (simp add: put_single_def store_in_redis_raw_def redis_setex_ok redis_delete_ok)

lemma ceil_quot_exact:
  "0 \<le> a \<Longrightarrow> a < 2 ^ 53 \<Longrightarrow> 0 < b \<Longrightarrow> b < 2 ^ 53 \<Longrightarrow> ceil_quot E a b = ceil_div a b"
  by (simp add: ceil_quot_def)

lemma put_chunked_ok:
  assumes "faults r = []" and "0 < CHUNK_SIZE E" and "CHUNK_SIZE E < 2 ^ 53"
      and "int (length payload) < 2 ^ 53"
  shows "put_chunked E d orig payload compressed r
           = (Inr (), r\<lparr>kv := fmupd (meta_key d)
                 (meta_json (ceil_div (int (length payload)) (CHUNK_SIZE E)) orig
                    (int (length payload)) compressed)
                 (apply_writes
                    (chunk_writes E d payload (ceil_div (int (length payload)) (CHUNK_SIZE E)))
                    (kv r))\<rparr>)"
  using assms
  by (simp add: put_chunked_def Let_def pipeline_execute_ok apply_writes_snoc ceil_quot_exact)


subsection \<open>Chunking\<close>



lemma utf8_hello: "utf8 hello = [0x68, 0x65, 0x6C, 0x6C, 0x6F]"
  by (simp add: hello_def utf8_def encode_cp_def)

lemma valid_hello: "valid_text hello"
  by (simp add: hello_def valid_text_def is_scalar_def)

lemma keys_d:
  "chunk_key ''d'' 0 = ''doc:d:chunk:0''" "chunk_key ''d'' 1 = ''doc:d:chunk:1''"
  "chunk_key ''d'' 2 = ''doc:d:chunk:2''" "meta_key ''d'' = ''doc:d:meta''"
  "single_key ''d'' = ''doc:d''" "chunk_key ''d'' (Suc 0) = ''doc:d:chunk:1''"
  "chunk_key ''d'' (Suc (Suc 0)) = ''doc:d:chunk:2''"
  "chunk_key ''d'' 3 = ''doc:d:chunk:3''"
  "chunk_key ''d'' (Suc (Suc (Suc 0))) = ''doc:d:chunk:3''"
  by code_simp+



subsection \<open>Round trip\<close>

lemma put_small_example:
  "put_doc_text env_small 0 ''d'' [97] \<lparr>REDIS = Some redis_empty, DOC_STORE = Map.empty\<rparr>
     = (Inr True, \<lparr>REDIS = Some \<lparr>kv = fmupd ''doc:d'' [0x61] fmempty, faults = []\<rparr>,
                   DOC_STORE = Map.empty\<rparr>)"
  by (simp add: put_doc_text_def utf8_encode_def valid_text_def is_scalar_def utf8_def
        encode_cp_def maybe_compress_def env_small_def redis_empty_def put_single_ok
        single_payload_def keys_d fmdrop_fmupd)

lemma put_hello_over_small:
  "put_doc_text env_small 0 ''d'' hello
      \<lparr>REDIS = Some \<lparr>kv = fmupd ''doc:d'' [0x61] fmempty, faults = []\<rparr>, DOC_STORE = Map.empty\<rparr>
     = (Inr True,
        \<lparr>REDIS = Some \<lparr>kv = fmupd ''doc:d:meta'' (meta_json 3 5 5 False)
                    (fmupd ''doc:d:chunk:2'' [0x6F]
                    (fmupd ''doc:d:chunk:1'' [0x6C, 0x6C]
                    (fmupd ''doc:d:chunk:0'' [0x68, 0x65]
                    (fmupd ''doc:d'' [0x61] fmempty)))), faults = []\<rparr>,
          DOC_STORE = Map.empty\<rparr>)"
  by (simp add: put_doc_text_def utf8_encode_def valid_hello utf8_hello
        maybe_compress_def env_small_def put_chunked_ok ceil_div_def
        chunk_writes_def slice_chunk_def apply_writes_def upt_rec keys_d)

lemma get_shadowed:
  "get_doc_text env_small 0 ''d''
     \<lparr>REDIS = Some \<lparr>kv = fmupd ''doc:d:meta'' (meta_json 3 5 5 False)
                    (fmupd ''doc:d:chunk:2'' [0x6F]
                    (fmupd ''doc:d:chunk:1'' [0x6C, 0x6C]
                    (fmupd ''doc:d:chunk:0'' [0x68, 0x65]
                    (fmupd ''doc:d'' [0x61] fmempty)))), faults = []\<rparr>,
          DOC_STORE = Map.empty\<rparr>
   = ([97], \<lparr>REDIS = Some \<lparr>kv = fmupd ''doc:d:meta'' (meta_json 3 5 5 False)
                    (fmupd ''doc:d:chunk:2'' [0x6F]
                    (fmupd ''doc:d:chunk:1'' [0x6C, 0x6C]
                    (fmupd ''doc:d:chunk:0'' [0x68, 0x65]
                    (fmupd ''doc:d'' [0x61] fmempty)))), faults = []\<rparr>,
          DOC_STORE = Map.empty\<rparr>)"
  by (simp add: get_doc_text_def redis_get_ok keys_d
        decode_redis_value_def decode_single_def startswith_def MARKER_COMPRESSED_def
        decode_or_empty_def)

lemma a_ne_hello: "[97] \<noteq> hello"
  by (simp add: hello_def)

text \<open>
  Claim C1 (round trip), evaluated where it fails. With a single-key limit of 4 bytes and
  a chunk size of 2, the identifier \<open>d\<close> first receives the one-byte text \<open>a\<close>, which
  is written under the single key, and then the five-byte text \<open>hello\<close>, which is
  written as three chunks and a meta record. Both calls return \<open>True\<close>. The chunked
  write leaves the single key in place, and \<open>get_doc_text\<close> reads the single key first:
  it returns \<open>a\<close>, not the text of the last successful \<open>put_doc_text\<close>.
\<close>

theorem roundtrip_shadowed_by_single_key:
  "(let s0 = \<lparr>REDIS = Some redis_empty, DOC_STORE = Map.empty\<rparr>;
        (r1, s1) = put_doc_text env_small 0 ''d'' [97] s0;
        (r2, s2) = put_doc_text env_small 0 ''d'' hello s1;
        (t, s3) = get_doc_text env_small 0 ''d'' s2
    in r1 = Inr True \<and> r2 = Inr True \<and> t = [97] \<and> t \<noteq> hello)"
  by (simp add: put_small_example put_hello_over_small get_shadowed a_ne_hello)


subsection \<open>The loops over chunk indices\<close>

lemma kv_tick: "kv (tick r) = kv r"
  by (simp add: tick_def)

lemma fetch_chunks_ok:
  "faults r = [] \<Longrightarrow>
   fetch_chunks d js r = (Inr (those (map (\<lambda>i. fmlookup (kv r) (chunk_key d i)) js)), r)"
  by (induction js) (auto simp: redis_get_ok split: option.splits)

lemma fetch_chunks_kv: "kv (snd (fetch_chunks d js r)) = kv r"
proof (induction js arbitrary: r)
  case Nil
  show ?case by simp
next
  case (Cons j js)
  obtain x y where f: "fetch_chunks d js (tick r) = (x, y)" by (cases "fetch_chunks d js (tick r)")
  have "kv y = kv r" using Cons.IH[of "tick r"] f by (simp add: kv_tick)
  then show ?case
    using f by (auto simp: redis_get_def kv_tick split: sum.splits option.splits)
qed

lemma fetch_chunks_missing:
  "i \<in> set js \<Longrightarrow> fmlookup (kv r) (chunk_key d i) = None \<Longrightarrow>
   fst (fetch_chunks d js r) \<noteq> Inr (Some cs)"
proof (induction js arbitrary: r cs)
  case Nil
  then show ?case by simp
next
  case (Cons j js)
  show ?case
  proof (cases "raises r")
    case True
    then show ?thesis by (simp add: redis_get_def)
  next
    case False
    show ?thesis
    proof (cases "fmlookup (kv r) (chunk_key d j)")
      case None
      with False show ?thesis by (simp add: redis_get_def)
    next
      case (Some c)
      with Cons.prems have "i \<in> set js" by auto
      moreover have "fmlookup (kv (tick r)) (chunk_key d i) = None"
        using Cons.prems by (simp add: kv_tick)
      ultimately have ih: "\<And>cs'. fst (fetch_chunks d js (tick r)) \<noteq> Inr (Some cs')"
        by (rule Cons.IH)
      obtain x y where f: "fetch_chunks d js (tick r) = (x, y)"
        by (cases "fetch_chunks d js (tick r)")
      with ih have "\<And>cs'. x \<noteq> Inr (Some cs')" by simp
      with False Some f show ?thesis
        by (auto simp: redis_get_def split: sum.splits option.splits)
    qed
  qed
qed

lemma build_entries_ok:
  "faults r = [] \<Longrightarrow>
   build_entries d js r
     = (Inr (map (\<lambda>i. \<lparr>chunk_index = i, redis_key = chunk_key d i,
                          stored_bytes = (case fmlookup (kv r) (chunk_key d i) of
                                            None \<Rightarrow> 0 | Some v \<Rightarrow> length v)\<rparr>) js), r)"
  by (induction js) (auto simp: redis_get_ok)

lemma build_entries_kv: "kv (snd (build_entries d js r)) = kv r"
proof (induction js arbitrary: r)
  case Nil
  show ?case by simp
next
  case (Cons j js)
  obtain x y where f: "build_entries d js (tick r) = (x, y)" by (cases "build_entries d js (tick r)")
  have "kv y = kv r" using Cons.IH[of "tick r"] f by (simp add: kv_tick)
  then show ?case
    using f by (auto simp: redis_get_def kv_tick split: sum.splits)
qed

lemma probe_count_ok:
  assumes "faults r = []"
      and "\<forall>i. n \<le> i \<and> i < j \<longrightarrow> chunk_key d i |\<in>| fmdom (kv r)"
      and "chunk_key d j |\<notin>| fmdom (kv r)" and "n \<le> j"
  shows "probe_count d n r = (Inr j, r)"
  using assms
proof (induction "j - n" arbitrary: n)
  case 0
  then have "n = j" by simp
  with 0 show ?case by (subst probe_count.simps) (simp add: redis_exists_ok)
next
  case (Suc k)
  then have lt: "n < j" by simp
  with Suc.prems have here: "chunk_key d n |\<in>| fmdom (kv r)" by simp
  have "probe_count d (Suc n) r = (Inr j, r)"
    using Suc.hyps(2) Suc.prems lt by (intro Suc.hyps(1)) auto
  with here Suc.prems(1) show ?case
    by (subst probe_count.simps) (simp add: redis_exists_ok)
qed

lemma probe_count_kv: "kv (snd (probe_count d n r)) = kv r"
proof (induction d n r rule: probe_count.induct)
  case (1 d n r)
  show ?case
  proof (cases "raises r")
    case True
    then show ?thesis by (subst probe_count.simps) (simp add: redis_exists_def kv_tick)
  next
    case False
    show ?thesis
    proof (cases "chunk_key d n |\<in>| fmdom (kv r)")
      case True
      have "kv (snd (probe_count d (Suc n) (tick r))) = kv (tick r)"
        using False True by (intro "1.IH"[of "Inr True" "tick r" True])
          (simp_all add: redis_exists_def)
      with False True show ?thesis
        by (subst probe_count.simps) (simp add: redis_exists_def kv_tick)
    next
      case no: False
      with False show ?thesis
        by (subst probe_count.simps) (simp add: redis_exists_def kv_tick)
    qed
  qed
qed

lemma first_missing_exists:
  fixes r :: redis
  shows "\<exists>j\<ge>n. chunk_key d j |\<notin>| fmdom (kv r) \<and> (\<forall>i. n \<le> i \<and> i < j \<longrightarrow> chunk_key d i |\<in>| fmdom (kv r))"
proof -
  have "\<exists>m. m \<notin> probe_set d n r \<and> n \<le> m"
  proof -
    have "finite (probe_set d n r)" by (rule finite_probe_set)
    then obtain b where b: "\<forall>x\<in>probe_set d n r. x \<le> b"
      using finite_nat_set_iff_bounded_le by blast
    have "Suc (max b n) \<notin> probe_set d n r" using b by force
    then show ?thesis by (intro exI[of _ "Suc (max b n)"]) simp
  qed
  then have ex: "\<exists>m. n \<le> m \<and> chunk_key d m |\<notin>| fmdom (kv r)"
    by (auto simp: probe_set_def)
  define j where "j = (LEAST m. n \<le> m \<and> chunk_key d m |\<notin>| fmdom (kv r))"
  have "n \<le> j \<and> chunk_key d j |\<notin>| fmdom (kv r)"
    unfolding j_def using ex by (rule LeastI_ex)
  moreover have "\<forall>i. n \<le> i \<and> i < j \<longrightarrow> chunk_key d i |\<in>| fmdom (kv r)"
    unfolding j_def using not_less_Least by blast
  ultimately show ?thesis by blast
qed


lemma clear_probe_ok:
  assumes "faults r = []"
      and "\<forall>i. n \<le> i \<and> i < j \<longrightarrow> chunk_key d i |\<in>| fmdom (kv r)"
      and "chunk_key d j |\<notin>| fmdom (kv r)" and "n \<le> j"
  shows "clear_probe d n r
           = (Inr (), r\<lparr>kv := snd (del_keys (map (chunk_key d) [n..<j]) (kv r))\<rparr>)"
  using assms
proof (induction "j - n" arbitrary: n r)
  case 0
  then have "n = j" by simp
  with 0 show ?case
    by (subst clear_probe.simps) (simp add: redis_delete_ok fmdrop_idle)
next
  case (Suc k)
  then have lt: "n < j" by simp
  with Suc.prems have here: "chunk_key d n |\<in>| fmdom (kv r)" by simp
  define r1 where "r1 = r\<lparr>kv := fmdrop (chunk_key d n) (kv r)\<rparr>"
  have del: "redis_delete [chunk_key d n] r = (Inr 1, r1)"
    using Suc.prems(1) here by (simp add: redis_delete_ok r1_def)
  have "clear_probe d (Suc n) r1
          = (Inr (), r1\<lparr>kv := snd (del_keys (map (chunk_key d) [Suc n..<j]) (kv r1))\<rparr>)"
  proof (rule Suc.hyps(1))
    show "k = j - Suc n" using Suc.hyps(2) by simp
    show "faults r1 = []" using Suc.prems(1) by (simp add: r1_def)
    show "\<forall>i. Suc n \<le> i \<and> i < j \<longrightarrow> chunk_key d i |\<in>| fmdom (kv r1)"
      using Suc.prems(2) by (auto simp: r1_def dest: chunk_key_inj)
    show "chunk_key d j |\<notin>| fmdom (kv r1)" using Suc.prems(3) by (simp add: r1_def)
    show "Suc n \<le> j" using lt by simp
  qed
  then have "clear_probe d (Suc n) r1
          = (Inr (), r\<lparr>kv := snd (del_keys (map (chunk_key d) [n..<j]) (kv r))\<rparr>)"
    using lt by (simp add: r1_def upt_conv_Cons case_prod_unfold Let_def)
  with del show ?case by (subst clear_probe.simps) simp
qed

lemma build_entries_kv': "build_entries d js r = (x, y) \<Longrightarrow> kv y = kv r"
  using build_entries_kv[of d js r] by simp

lemma probe_count_kv': "probe_count d n r = (x, y) \<Longrightarrow> kv y = kv r"
  using probe_count_kv[of d n r] by simp

lemma probe_chunks_kv': "probe_chunks d r = (x, y) \<Longrightarrow> kv y = kv r"
  by (auto simp: probe_chunks_def redis_exists_def kv_tick
        split: sum.splits bool.splits prod.splits if_splits dest!: probe_count_kv')

lemma count_chunks_kv': "count_chunks E d r = (x, y) \<Longrightarrow> kv y = kv r"
  by (auto simp: count_chunks_def redis_get_def kv_tick
        split: option.splits if_splits dest!: probe_chunks_kv')

lemma build_chunks_reads_only:
  "map_option kv (REDIS (snd (build_chunks_from_redis E d s))) = map_option kv (REDIS s)
   \<and> DOC_STORE (snd (build_chunks_from_redis E d s)) = DOC_STORE s"
proof (cases "REDIS s")
  case None
  then show ?thesis by (simp add: build_chunks_from_redis_def)
next
  case (Some r)
  then show ?thesis
    by (auto simp: build_chunks_from_redis_def redis_get_def kv_tick
          split: option.splits sum.splits prod.splits
          dest!: count_chunks_kv' build_entries_kv')
qed

subsection \<open>Chunk metadata\<close>

text \<open>
  Claim C9. \<open>build_chunks_from_redis\<close> returns the empty list for an empty identifier.
  Whatever the client does, the call leaves the keys and values of the Redis server and
  \<open>DOC_STORE\<close> as they were. With a client that does not fail and a non-empty
  identifier: when the single key \<open>doc:{id}\<close> holds a value, the result is the one
  descriptor with index 0, that key and the length of the value; otherwise it is one
  descriptor per index \<open>0..n-1\<close>, in this order, with the key \<open>doc:{id}:chunk:{i}\<close> and
  the length of the value stored there (0 if there is none), where \<open>n\<close> is the chunk
  count read from the meta record (0 if the record cannot be read) and, when the meta
  record is missing or empty, the first index \<open>j\<close> whose chunk key is not there.
\<close>

theorem build_chunks_layout:
  "build_chunks_from_redis E [] s = ([], s)
   \<and> map_option kv (REDIS (snd (build_chunks_from_redis E doc_id s))) = map_option kv (REDIS s)
   \<and> DOC_STORE (snd (build_chunks_from_redis E doc_id s)) = DOC_STORE s
   \<and> (REDIS s = Some r \<and> faults r = [] \<and> doc_id \<noteq> [] \<longrightarrow>
       (\<exists>j. chunk_key doc_id j |\<notin>| fmdom (kv r)
              \<and> (\<forall>i<j. chunk_key doc_id i |\<in>| fmdom (kv r))
              \<and> build_chunks_from_redis E doc_id s
                  = (case fmlookup (kv r) (single_key doc_id) of
                       Some raw \<Rightarrow>
                         [\<lparr>chunk_index = 0, redis_key = single_key doc_id,
                           stored_bytes = length raw\<rparr>]
                     | None \<Rightarrow>
                         map (\<lambda>i. \<lparr>chunk_index = i, redis_key = chunk_key doc_id i,
                                    stored_bytes =
                                      (case fmlookup (kv r) (chunk_key doc_id i) of
                                         None \<Rightarrow> 0 | Some v \<Rightarrow> length v)\<rparr>)
                           [0..<(case fmlookup (kv r) (meta_key doc_id) of
                                   None \<Rightarrow> j
                                 | Some meta_raw \<Rightarrow>
                                     if meta_raw = [] then j
                                     else (case json_loads_meta E meta_raw of
                                             Some (n, c) \<Rightarrow> nat n
                                           | None \<Rightarrow> 0))],
                     s)))"
proof -
  have layout: "\<exists>j. chunk_key doc_id j |\<notin>| fmdom (kv r)
              \<and> (\<forall>i<j. chunk_key doc_id i |\<in>| fmdom (kv r))
              \<and> build_chunks_from_redis E doc_id s
                  = (case fmlookup (kv r) (single_key doc_id) of
                       Some raw \<Rightarrow>
                         [\<lparr>chunk_index = 0, redis_key = single_key doc_id,
                           stored_bytes = length raw\<rparr>]
                     | None \<Rightarrow>
                         map (\<lambda>i. \<lparr>chunk_index = i, redis_key = chunk_key doc_id i,
                                    stored_bytes =
                                      (case fmlookup (kv r) (chunk_key doc_id i) of
                                         None \<Rightarrow> 0 | Some v \<Rightarrow> length v)\<rparr>)
                           [0..<(case fmlookup (kv r) (meta_key doc_id) of
                                   None \<Rightarrow> j
                                 | Some meta_raw \<Rightarrow>
                                     if meta_raw = [] then j
                                     else (case json_loads_meta E meta_raw of
                                             Some (n, c) \<Rightarrow> nat n
                                           | None \<Rightarrow> 0))],
                     s)"
    if a: "REDIS s = Some r" "faults r = []" "doc_id \<noteq> []"
  proof -
    obtain j where j: "chunk_key doc_id j |\<notin>| fmdom (kv r)"
        "\<forall>i. 0 \<le> i \<and> i < j \<longrightarrow> chunk_key doc_id i |\<in>| fmdom (kv r)"
      using first_missing_exists[of 0 doc_id r] by blast
    have probe: "probe_chunks doc_id r = (Inr (if j = 0 then None else Some j), r)"
    proof (cases "j = 0")
      case True
      with j a(2) show ?thesis by (simp add: probe_chunks_def redis_exists_ok)
    next
      case False
      then have "chunk_key doc_id 0 |\<in>| fmdom (kv r)" using j(2) by simp
      moreover have "probe_count doc_id 0 r = (Inr j, r)"
        using a(2) j by (intro probe_count_ok) simp_all
      ultimately show ?thesis using False a(2) by (simp add: probe_chunks_def redis_exists_ok)
    qed
    have s: "s\<lparr>REDIS := Some r\<rparr> = s" using a(1) by simp
    have "build_chunks_from_redis E doc_id s
                  = (case fmlookup (kv r) (single_key doc_id) of
                       Some raw \<Rightarrow>
                         [\<lparr>chunk_index = 0, redis_key = single_key doc_id,
                           stored_bytes = length raw\<rparr>]
                     | None \<Rightarrow>
                         map (\<lambda>i. \<lparr>chunk_index = i, redis_key = chunk_key doc_id i,
                                    stored_bytes =
                                      (case fmlookup (kv r) (chunk_key doc_id i) of
                                         None \<Rightarrow> 0 | Some v \<Rightarrow> length v)\<rparr>)
                           [0..<(case fmlookup (kv r) (meta_key doc_id) of
                                   None \<Rightarrow> j
                                 | Some meta_raw \<Rightarrow>
                                     if meta_raw = [] then j
                                     else (case json_loads_meta E meta_raw of
                                             Some (n, c) \<Rightarrow> nat n
                                           | None \<Rightarrow> 0))],
                     s)"
      using a
      by (auto simp: build_chunks_from_redis_def redis_get_ok count_chunks_def probe
            build_entries_ok s split: option.splits)
    with j show ?thesis by auto
  qed
  have "build_chunks_from_redis E [] s = ([], s)"
    by (simp add: build_chunks_from_redis_def)
  with layout build_chunks_reads_only[of E doc_id s] show ?thesis by blast
qed

theorem build_chunks_layout_witness:
  "build_chunks_from_redis env_small ''d''
      \<lparr>REDIS = Some \<lparr>kv = fmupd ''doc:d:chunk:1'' [7]
                             (fmupd ''doc:d:chunk:0'' [8, 9] fmempty), faults = []\<rparr>,
       DOC_STORE = Map.empty\<rparr>
     = ([\<lparr>chunk_index = 0, redis_key = ''doc:d:chunk:0'', stored_bytes = 2\<rparr>,
         \<lparr>chunk_index = 1, redis_key = ''doc:d:chunk:1'', stored_bytes = 1\<rparr>],
        \<lparr>REDIS = Some \<lparr>kv = fmupd ''doc:d:chunk:1'' [7]
                             (fmupd ''doc:d:chunk:0'' [8, 9] fmempty), faults = []\<rparr>,
          DOC_STORE = Map.empty\<rparr>)"
proof -
  define m :: keyspace where
    "m = fmupd ''doc:d:chunk:1'' [7] (fmupd ''doc:d:chunk:0'' [8, 9] fmempty)"
  define r where "r = \<lparr>kv = m, faults = []\<rparr>"
  define s where "s = \<lparr>REDIS = Some r, DOC_STORE = Map.empty\<rparr>"
  have dom: "chunk_key ''d'' 0 |\<in>| fmdom m" "chunk_key ''d'' 1 |\<in>| fmdom m"
    "chunk_key ''d'' 2 |\<notin>| fmdom m"
    by (simp_all add: m_def keys_d)
  have kvr: "kv r = m" by (simp add: r_def)
  have pre: "REDIS s = Some r \<and> faults r = [] \<and> ''d'' \<noteq> []" by (simp add: s_def r_def)
  from build_chunks_layout[where E = env_small and s = s and doc_id = "''d''" and r = r] pre
  have "\<exists>j. chunk_key ''d'' j |\<notin>| fmdom (kv r)
      \<and> (\<forall>i<j. chunk_key ''d'' i |\<in>| fmdom (kv r))
      \<and> build_chunks_from_redis env_small ''d'' s
        = (case fmlookup (kv r) (single_key ''d'') of
             Some raw \<Rightarrow>
               [\<lparr>chunk_index = 0, redis_key = single_key ''d'', stored_bytes = length raw\<rparr>]
           | None \<Rightarrow>
               map (\<lambda>i. \<lparr>chunk_index = i, redis_key = chunk_key ''d'' i,
                          stored_bytes = (case fmlookup (kv r) (chunk_key ''d'' i) of
                                            None \<Rightarrow> 0 | Some v \<Rightarrow> length v)\<rparr>)
                 [0..<(case fmlookup (kv r) (meta_key ''d'') of
                         None \<Rightarrow> j
                       | Some meta_raw \<Rightarrow>
                           if meta_raw = [] then j
                           else (case json_loads_meta env_small meta_raw of
                                   Some (n, c) \<Rightarrow> nat n
                                 | None \<Rightarrow> 0))],
           s)"
    by blast
  then obtain j where j: "chunk_key ''d'' j |\<notin>| fmdom m"
      "\<forall>i<j. chunk_key ''d'' i |\<in>| fmdom m"
    and b: "build_chunks_from_redis env_small ''d'' s
        = (case fmlookup m (single_key ''d'') of
             Some raw \<Rightarrow>
               [\<lparr>chunk_index = 0, redis_key = single_key ''d'', stored_bytes = length raw\<rparr>]
           | None \<Rightarrow>
               map (\<lambda>i. \<lparr>chunk_index = i, redis_key = chunk_key ''d'' i,
                          stored_bytes = (case fmlookup m (chunk_key ''d'' i) of
                                            None \<Rightarrow> 0 | Some v \<Rightarrow> length v)\<rparr>)
                 [0..<(case fmlookup m (meta_key ''d'') of
                         None \<Rightarrow> j
                       | Some meta_raw \<Rightarrow>
                           if meta_raw = [] then j
                           else (case json_loads_meta env_small meta_raw of
                                   Some (n, c) \<Rightarrow> nat n
                                 | None \<Rightarrow> 0))],
           s)"
    unfolding kvr by blast
  have "j = 2"
  proof -
    have "j \<noteq> 0" using j(1) dom(1) by (rule_tac notI) simp
    moreover have "j \<noteq> 1" using j(1) dom(2) by (rule_tac notI) simp
    moreover have "\<not> 2 < j" using j(2) dom(3) by auto
    ultimately show ?thesis by linarith
  qed
  with b have "build_chunks_from_redis env_small ''d'' s
     = ([\<lparr>chunk_index = 0, redis_key = ''doc:d:chunk:0'', stored_bytes = 2\<rparr>,
         \<lparr>chunk_index = 1, redis_key = ''doc:d:chunk:1'', stored_bytes = 1\<rparr>], s)"
    by (simp add: m_def keys_d upt_rec)
  then show ?thesis by (simp add: s_def r_def m_def)
qed


subsection \<open>A missing chunk\<close>

lemma fetch_chunks_missing':
  "fetch_chunks d js r = (x, y) \<Longrightarrow> i \<in> set js \<Longrightarrow> fmlookup (kv r) (chunk_key d i) = None
   \<Longrightarrow> x \<noteq> Inr (Some cs)"
  using fetch_chunks_missing[of i js r d cs] by simp

lemma decode_chunked_missing:
  assumes "fmlookup (kv r) (meta_key d) = Some meta_raw"
      and "json_loads_meta E meta_raw = Some (n, compressed)"
      and "i < nat n" and "fmlookup (kv r) (chunk_key d i) = None"
  shows "fst (decode_chunked E d r) = []"
proof (cases "raises r \<or> meta_raw = []")
  case True
  with assms(1) show ?thesis by (auto simp: decode_chunked_def redis_get_def)
next
  case False
  obtain x y where f: "fetch_chunks d [0..<nat n] (tick r) = (x, y)"
    by (cases "fetch_chunks d [0..<nat n] (tick r)")
  have "\<And>cs. x \<noteq> Inr (Some cs)"
    using f assms(3,4) by (intro fetch_chunks_missing'[of d "[0..<nat n]" "tick r" x y i])
      (simp_all add: kv_tick)
  then show ?thesis
    using False assms(1,2) f
    by (auto simp: decode_chunked_def redis_get_def split: sum.splits option.splits)
qed

lemma get_fallback_text: "fst (get_fallback E now d (s\<lparr>REDIS := R\<rparr>)) = fst (get_fallback E now d s)"
  by (simp add: get_fallback_def split: option.splits)

text \<open>
  Claim C5. Let the single key of a non-empty identifier be absent, let its meta record
  be readable and give the chunk count \<open>n\<close>, and let the chunk key of some index below
  \<open>n\<close> be absent. Then, whatever the client does, the reassembly in
  \<open>_decode_redis_value\<close> returns the empty string, and \<open>get_doc_text\<close> returns what
  the lookup in \<open>DOC_STORE\<close> returns: the empty string when \<open>DOC_STORE\<close> has no entry for
  the identifier, and never a part of the chunks that are there.
\<close>

theorem missing_chunk:
  assumes "REDIS s = Some r" and "doc_id \<noteq> []"
      and "fmlookup (kv r) (single_key doc_id) = None"
      and "fmlookup (kv r) (meta_key doc_id) = Some meta_raw"
      and "json_loads_meta E meta_raw = Some (n, compressed)"
      and "i < nat n" and "fmlookup (kv r) (chunk_key doc_id i) = None"
  shows "fst (decode_redis_value E None doc_id (Some r)) = []
       \<and> fst (get_doc_text E now doc_id s) = fst (get_fallback E now doc_id s)
       \<and> (DOC_STORE s doc_id = None \<longrightarrow> fst (get_doc_text E now doc_id s) = [])"
proof -
  have d: "fst (decode_chunked E doc_id r') = []" if "kv r' = kv r" for r'
    using assms(4-7) that by (intro decode_chunked_missing[of r' doc_id meta_raw E n compressed i]) simp_all
  have one: "fst (decode_redis_value E None doc_id (Some r)) = []"
    using assms(2) d[of r] by (simp add: decode_redis_value_def case_prod_unfold)
  have two: "fst (get_doc_text E now doc_id s) = fst (get_fallback E now doc_id s)"
  proof (cases "raises r")
    case True
    with assms(1,2) show ?thesis
      by (simp add: get_doc_text_def redis_get_def get_fallback_text)
  next
    case False
    have "fst (decode_chunked E doc_id (tick r)) = []" by (rule d) (simp add: kv_tick)
    with False assms(1,2,3) show ?thesis
      by (simp add: get_doc_text_def redis_get_def decode_redis_value_def case_prod_unfold
            get_fallback_text)
  qed
  have three: "DOC_STORE s doc_id = None \<longrightarrow> fst (get_doc_text E now doc_id s) = []"
    unfolding two by (simp add: get_fallback_def)
  from one two three show ?thesis by blast
qed

theorem missing_chunk_witness:
  "fst (decode_redis_value (env_small\<lparr>json_loads_meta := (\<lambda>b. Some (2, False))\<rparr>) None ''d''
          (Some \<lparr>kv = fmupd ''doc:d:meta'' [1] (fmupd ''doc:d:chunk:0'' [0x68] fmempty),
                 faults = []\<rparr>)) = []
   \<and> fst (get_doc_text (env_small\<lparr>json_loads_meta := (\<lambda>b. Some (2, False))\<rparr>) 0 ''d''
          \<lparr>REDIS = Some \<lparr>kv = fmupd ''doc:d:meta'' [1] (fmupd ''doc:d:chunk:0'' [0x68] fmempty),
                          faults = []\<rparr>,
            DOC_STORE = Map.empty\<rparr>) = []"
  using missing_chunk[where E = "env_small\<lparr>json_loads_meta := (\<lambda>b. Some (2, False))\<rparr>"
      and s = "\<lparr>REDIS = Some \<lparr>kv = fmupd ''doc:d:meta'' [1] (fmupd ''doc:d:chunk:0'' [0x68] fmempty),
                          faults = []\<rparr>, DOC_STORE = Map.empty\<rparr>"
      and r = "\<lparr>kv = fmupd ''doc:d:meta'' [1] (fmupd ''doc:d:chunk:0'' [0x68] fmempty),
                          faults = []\<rparr>"
      and doc_id = "''d''" and meta_raw = "[1]" and n = 2 and compressed = False and i = 1
      and now = 0]
  by (simp add: keys_d get_fallback_def)


subsection \<open>A raw text that starts with the marker\<close>




subsection \<open>The compression threshold\<close>

text \<open>
  Claim C4, as the code has it. When the compressor does not fail on the encoding of the
  text, \<open>put_doc_text\<close> compresses exactly when \<open>COMPRESS_THRESHOLD\<close> is not 0 and the
  number of bytes of the encoding is at least \<open>COMPRESS_THRESHOLD\<close>. When the bytes to
  store fit the single key (client not failing, non-empty identifier), the value written
  there is the marker \<open>gzip:\<close> followed by the compressed bytes in the first case and the
  encoding, with nothing in front, in the second.
\<close>

theorem compression_threshold:
  assumes "REDIS s = Some r" and "faults r = []" and "doc_id \<noteq> []" and "valid_text txt"
      and "gzip_compress_bytes E (utf8 txt) = Some gz"
  shows "maybe_compress E (utf8 txt)
           = (if COMPRESS_THRESHOLD E \<noteq> 0 \<and> COMPRESS_THRESHOLD E \<le> int (length (utf8 txt))
              then (gz, True) else (utf8 txt, False))
       \<and> (int (length (fst (maybe_compress E (utf8 txt)))) \<le> MAX_SINGLE_KEY E \<longrightarrow>
            fst (put_doc_text E now doc_id txt s) = Inr True
          \<and> map_option (\<lambda>r'. fmlookup (kv r') (single_key doc_id))
               (REDIS (snd (put_doc_text E now doc_id txt s)))
              = Some (Some (if COMPRESS_THRESHOLD E \<noteq> 0
                               \<and> COMPRESS_THRESHOLD E \<le> int (length (utf8 txt))
                            then MARKER_COMPRESSED @ gz else utf8 txt)))"
proof -
  have mc: "maybe_compress E (utf8 txt)
           = (if COMPRESS_THRESHOLD E \<noteq> 0 \<and> COMPRESS_THRESHOLD E \<le> int (length (utf8 txt))
              then (gz, True) else (utf8 txt, False))"
    using assms(5) by (simp add: maybe_compress_def)
  have "fst (put_doc_text E now doc_id txt s) = Inr True
          \<and> map_option (\<lambda>r'. fmlookup (kv r') (single_key doc_id))
               (REDIS (snd (put_doc_text E now doc_id txt s)))
              = Some (Some (if COMPRESS_THRESHOLD E \<noteq> 0
                               \<and> COMPRESS_THRESHOLD E \<le> int (length (utf8 txt))
                            then MARKER_COMPRESSED @ gz else utf8 txt))"
    if "int (length (fst (maybe_compress E (utf8 txt)))) \<le> MAX_SINGLE_KEY E"
    using that assms(1-4)
    by (auto simp: mc put_doc_text_def utf8_encode_def put_single_ok single_payload_def
          single_ne_meta split: if_splits)
  with mc show ?thesis by blast
qed


theorem compression_threshold_witness:
  "map_option (\<lambda>r'. fmlookup (kv r') ''doc:d'')
     (REDIS (snd (put_doc_text env_toy 0 ''d'' [97, 97, 97, 97, 97, 97, 97, 97]
                    \<lparr>REDIS = Some redis_empty, DOC_STORE = Map.empty\<rparr>)))
     = Some (Some ([0x67, 0x7A, 0x69, 0x70, 0x3A, 0x1F, 0x8B,
                    0x61, 0x61, 0x61, 0x61, 0x61, 0x61, 0x61, 0x61]))
   \<and> map_option (\<lambda>r'. fmlookup (kv r') ''doc:d'')
     (REDIS (snd (put_doc_text env_toy 0 ''d'' [97, 97, 97, 97, 97, 97, 97]
                    \<lparr>REDIS = Some redis_empty, DOC_STORE = Map.empty\<rparr>)))
     = Some (Some [0x61, 0x61, 0x61, 0x61, 0x61, 0x61, 0x61])"
proof -
  have u8: "utf8 [97, 97, 97, 97, 97, 97, 97, 97]
              = [0x61, 0x61, 0x61, 0x61, 0x61, 0x61, 0x61, 0x61]"
    and u7: "utf8 [97, 97, 97, 97, 97, 97, 97] = [0x61, 0x61, 0x61, 0x61, 0x61, 0x61, 0x61]"
    by (simp_all add: utf8_def encode_cp_def)
  have v: "valid_text [97, 97, 97, 97, 97, 97, 97, 97]" "valid_text [97, 97, 97, 97, 97, 97, 97]"
    by (simp_all add: valid_text_def is_scalar_def)
  have g8: "gzip_compress_bytes env_toy (utf8 [97, 97, 97, 97, 97, 97, 97, 97])
              = Some [0x1F, 0x8B, 0x61, 0x61, 0x61, 0x61, 0x61, 0x61, 0x61, 0x61]"
    and g7: "gzip_compress_bytes env_toy (utf8 [97, 97, 97, 97, 97, 97, 97])
              = Some [0x1F, 0x8B, 0x61, 0x61, 0x61, 0x61, 0x61, 0x61, 0x61]"
    by (simp_all add: env_toy_def toy_gzip_def u8 u7)
  have r: "REDIS \<lparr>REDIS = Some redis_empty, DOC_STORE = Map.empty\<rparr> = Some redis_empty"
    "faults redis_empty = []" "''d'' \<noteq> []"
    by (simp_all add: redis_empty_def)
  note c8 = compression_threshold[OF r v(1) g8, of 0]
  note c7 = compression_threshold[OF r v(2) g7, of 0]
  have t: "COMPRESS_THRESHOLD env_toy = 8" "MAX_SINGLE_KEY env_toy = 16"
    by (simp_all add: env_toy_def)
  from c8 c7 show ?thesis
    by (simp add: t u8 u7 keys_d MARKER_COMPRESSED_def)
qed

text \<open>
  Claim C4 as stated fails for a threshold of 0: the length of the encoding of the text
  \<open>a\<close> is at least 0 and the compressor would succeed, but the text is stored raw
  (the test \<open>COMPRESS_THRESHOLD and ...\<close> of line 123 is false for 0).
\<close>

theorem threshold_zero_counterexample:
  "COMPRESS_THRESHOLD (env_toy\<lparr>COMPRESS_THRESHOLD := 0\<rparr>) \<le> int (length (utf8 [97]))
   \<and> gzip_compress_bytes (env_toy\<lparr>COMPRESS_THRESHOLD := 0\<rparr>) (utf8 [97])
       = Some [0x1F, 0x8B, 0x61]
   \<and> maybe_compress (env_toy\<lparr>COMPRESS_THRESHOLD := 0\<rparr>) (utf8 [97]) = ([0x61], False)
   \<and> put_doc_text (env_toy\<lparr>COMPRESS_THRESHOLD := 0\<rparr>) 0 ''d'' [97]
         \<lparr>REDIS = Some redis_empty, DOC_STORE = Map.empty\<rparr>
       = (Inr True, \<lparr>REDIS = Some \<lparr>kv = fmupd ''doc:d'' [0x61] fmempty, faults = []\<rparr>,
                     DOC_STORE = Map.empty\<rparr>)"
  by (simp add: env_toy_def toy_gzip_def utf8_def encode_cp_def maybe_compress_def
        put_doc_text_def utf8_encode_def valid_text_def is_scalar_def redis_empty_def
        put_single_ok single_payload_def keys_d fmdrop_fmupd)

text \<open>A compressor that raises leaves the raw bytes, whatever the threshold.\<close>

lemma compressor_failure_keeps_raw:
  "gzip_compress_bytes E raw_bytes = None \<Longrightarrow> maybe_compress E raw_bytes = (raw_bytes, False)"
  by (simp add: maybe_compress_def)


subsection \<open>The result of put\_doc\_text\<close>

lemma put_single_cases:
  "put_single E d payload compressed r = (ok, r1) \<Longrightarrow>
     (ok \<longrightarrow> fmlookup (kv r1) (single_key d) = Some (single_payload payload compressed))"
  by (auto simp: put_single_def store_in_redis_raw_def redis_setex_def redis_delete_def
        kv_tick del_keys_lookup single_ne_meta
        split: if_splits prod.splits sum.splits bool.splits)

lemma put_chunked_cases:
  assumes "put_chunked E d orig payload compressed r = (Inr u, r1)" and "0 \<le> CHUNK_SIZE E"
      and "CHUNK_SIZE E < 2 ^ 53" and "int (length payload) < 2 ^ 53"
  shows "fmlookup (kv r1) (meta_key d)
           = Some (meta_json (ceil_div (int (length payload)) (CHUNK_SIZE E)) orig
                     (int (length payload)) compressed)
       \<and> (\<forall>i<nat (ceil_div (int (length payload)) (CHUNK_SIZE E)).
             fmlookup (kv r1) (chunk_key d i) = Some (slice_chunk E payload i))
       \<and> concat (map (slice_chunk E payload)
                   [0..<nat (ceil_div (int (length payload)) (CHUNK_SIZE E))]) = payload"
proof -
  from assms(1,2) have c: "0 < CHUNK_SIZE E"
    by (auto simp: put_chunked_def split: if_splits)
  have q: "ceil_quot E (int (length payload)) (CHUNK_SIZE E)
             = ceil_div (int (length payload)) (CHUNK_SIZE E)"
    using c assms(3,4) by (intro ceil_quot_exact) simp_all
  from assms(1) c have kv1: "kv r1 = fmupd (meta_key d)
        (meta_json (ceil_div (int (length payload)) (CHUNK_SIZE E)) orig
           (int (length payload)) compressed)
        (apply_writes (chunk_writes E d payload (ceil_div (int (length payload)) (CHUNK_SIZE E)))
           (kv r))"
    by (auto simp: put_chunked_def pipeline_execute_def Let_def kv_tick apply_writes_snoc q
          split: if_splits)
  show ?thesis
    unfolding kv1 using slices_cover[OF c, of payload]
    by (simp add: meta_ne_chunk lookup_chunk_writes)
qed

text \<open>
  Claim C6, as the code has it. For an encodable text and every behaviour of the
  client: \<open>put_doc_text\<close> with the empty identifier returns \<open>False\<close> and leaves the
  state, fault schedule included, as it was (no call of the client); it returns \<open>False\<close>
  only then, and \<open>True\<close> for every non-empty identifier. When the chunk size is from 0
  to \<open>2 ^ 53 - 1\<close> and the payload shorter than \<open>2 ^ 53\<close> bytes, the text is held in one
  of three places after a call with a non-empty identifier: \<open>DOC_STORE\<close> has the entry
  \<open>(now, text)\<close>, which is where every exception of the chunked write puts it; or the
  single key holds the payload; or the meta record and the chunk keys hold the payload,
  slice by slice. Outside that range of chunk sizes the theorem says nothing about
  where the text is; the example after it shows a chunk size at which it is nowhere.
\<close>

theorem put_returns:
  assumes "valid_text txt"
  shows "put_doc_text E now [] txt s = (Inr False, s)
       \<and> (fst (put_doc_text E now doc_id txt s) = Inr False \<longleftrightarrow> doc_id = [])
       \<and> (doc_id \<noteq> [] \<longrightarrow> fst (put_doc_text E now doc_id txt s) = Inr True)
       \<and> (doc_id \<noteq> [] \<longrightarrow>
            (let s' = snd (put_doc_text E now doc_id txt s);
                 (payload, compressed) = maybe_compress E (utf8 txt);
                 n = ceil_div (int (length payload)) (CHUNK_SIZE E)
             in 0 \<le> CHUNK_SIZE E \<and> CHUNK_SIZE E < 2 ^ 53 \<and> int (length payload) < 2 ^ 53 \<longrightarrow>
                DOC_STORE s' doc_id = Some (now, txt)
                \<or> (\<exists>r'. REDIS s' = Some r'
                      \<and> (fmlookup (kv r') (single_key doc_id)
                            = Some (single_payload payload compressed)
                         \<or> fmlookup (kv r') (meta_key doc_id)
                              = Some (meta_json n (int (length (utf8 txt)))
                                        (int (length payload)) compressed)
                           \<and> (\<forall>i<nat n. fmlookup (kv r') (chunk_key doc_id i)
                                            = Some (slice_chunk E payload i))
                           \<and> concat (map (slice_chunk E payload) [0..<nat n]) = payload))))"
proof -
  obtain payload compressed where mc: "maybe_compress E (utf8 txt) = (payload, compressed)"
    by (cases "maybe_compress E (utf8 txt)")
  have empty: "put_doc_text E now [] txt s = (Inr False, s)"
    by (simp add: put_doc_text_def)
  have ret: "fst (put_doc_text E now doc_id txt s) = Inr True" if "doc_id \<noteq> []"
    using that assms
    by (auto simp: put_doc_text_def utf8_encode_def mc
          split: option.splits prod.splits sum.splits bool.splits)
  have kept: "DOC_STORE (snd (put_doc_text E now doc_id txt s)) doc_id = Some (now, txt)
      \<or> (\<exists>r'. REDIS (snd (put_doc_text E now doc_id txt s)) = Some r'
            \<and> (fmlookup (kv r') (single_key doc_id) = Some (single_payload payload compressed)
               \<or> fmlookup (kv r') (meta_key doc_id)
                    = Some (meta_json (ceil_div (int (length payload)) (CHUNK_SIZE E))
                              (int (length (utf8 txt))) (int (length payload)) compressed)
                 \<and> (\<forall>i<nat (ceil_div (int (length payload)) (CHUNK_SIZE E)).
                       fmlookup (kv r') (chunk_key doc_id i) = Some (slice_chunk E payload i))
                 \<and> concat (map (slice_chunk E payload)
                       [0..<nat (ceil_div (int (length payload)) (CHUNK_SIZE E))]) = payload))"
    if id: "doc_id \<noteq> []" and c: "0 \<le> CHUNK_SIZE E"
      and b: "CHUNK_SIZE E < 2 ^ 53" "int (length payload) < 2 ^ 53"
  proof (cases "REDIS s")
    case None
    with id assms show ?thesis by (simp add: put_doc_text_def utf8_encode_def mc)
  next
    case (Some r)
    obtain ok r1 where single:
      "(if int (length payload) \<le> MAX_SINGLE_KEY E
        then put_single E doc_id payload compressed r else (False, r)) = (ok, r1)"
      by (cases "if int (length payload) \<le> MAX_SINGLE_KEY E
                 then put_single E doc_id payload compressed r else (False, r)")
    show ?thesis
    proof (cases ok)
      case True
      with single have "put_single E doc_id payload compressed r = (True, r1)"
        by (auto split: if_splits)
      then have "fmlookup (kv r1) (single_key doc_id) = Some (single_payload payload compressed)"
        using put_single_cases by blast
      moreover have "put_doc_text E now doc_id txt s = (Inr True, s\<lparr>REDIS := Some r1\<rparr>)"
        using id assms Some single True by (simp add: put_doc_text_def utf8_encode_def mc)
      ultimately show ?thesis by simp
    next
      case False
      obtain res r2 where ch:
        "put_chunked E doc_id (int (length (utf8 txt))) payload compressed r1 = (res, r2)"
        by (cases "put_chunked E doc_id (int (length (utf8 txt))) payload compressed r1")
      show ?thesis
      proof (cases res)
        case (Inl e)
        have "put_doc_text E now doc_id txt s
                = (Inr True, s\<lparr>REDIS := Some r2,
                                DOC_STORE := (DOC_STORE s)(doc_id \<mapsto> (now, txt))\<rparr>)"
          using id assms Some single False ch Inl
          by (simp add: put_doc_text_def utf8_encode_def mc)
        then show ?thesis by simp
      next
        case (Inr u)
        have "put_doc_text E now doc_id txt s = (Inr True, s\<lparr>REDIS := Some r2\<rparr>)"
          using id assms Some single False ch Inr
          by (simp add: put_doc_text_def utf8_encode_def mc)
        moreover note put_chunked_cases[OF ch[unfolded Inr] c b]
        ultimately show ?thesis by simp
      qed
    qed
  qed
  have iff: "fst (put_doc_text E now doc_id txt s) = Inr False \<longleftrightarrow> doc_id = []"
    using ret empty by (cases "doc_id = []") auto
  show ?thesis
    using empty iff ret kept by (simp add: mc Let_def)
qed


theorem put_returns_witness:
  "fst (put_doc_text env_small 5 ''d'' [97]
          \<lparr>REDIS = Some \<lparr>kv = fmempty, faults = [True, True]\<rparr>, DOC_STORE = Map.empty\<rparr>)
     = Inr True
   \<and> DOC_STORE (snd (put_doc_text env_small 5 ''d'' [97]
          \<lparr>REDIS = Some \<lparr>kv = fmempty, faults = [True, True]\<rparr>, DOC_STORE = Map.empty\<rparr>)) ''d''
     = Some (5, [97])
   \<and> put_doc_text env_small 5 [] [97]
          \<lparr>REDIS = Some \<lparr>kv = fmempty, faults = [True, True]\<rparr>, DOC_STORE = Map.empty\<rparr>
     = (Inr False, \<lparr>REDIS = Some \<lparr>kv = fmempty, faults = [True, True]\<rparr>,
                     DOC_STORE = Map.empty\<rparr>)"
proof -
  have v: "valid_text [97]" by (simp add: valid_text_def is_scalar_def)
  note t = put_returns[OF v, of env_small 5
      "\<lparr>REDIS = Some \<lparr>kv = fmempty, faults = [True, True]\<rparr>, DOC_STORE = Map.empty\<rparr>" "''d''"]
  have d: "DOC_STORE (snd (put_doc_text env_small 5 ''d'' [97]
          \<lparr>REDIS = Some \<lparr>kv = fmempty, faults = [True, True]\<rparr>, DOC_STORE = Map.empty\<rparr>)) ''d''
     = Some (5, [97])"
    by (simp add: put_doc_text_def utf8_encode_def v utf8_def encode_cp_def maybe_compress_def
          env_small_def put_single_def store_in_redis_raw_def redis_setex_def raises_def
          tick_def put_chunked_def pipeline_execute_def Let_def)
  from t d show ?thesis by simp
qed

lemma put_hello_neg:
  "put_doc_text env_neg 0 ''d'' hello \<lparr>REDIS = Some redis_empty, DOC_STORE = Map.empty\<rparr>
     = (Inr True,
        \<lparr>REDIS = Some \<lparr>kv = fmupd ''doc:d:meta'' (meta_json (- 5) 5 5 False) fmempty,
                        faults = []\<rparr>,
          DOC_STORE = Map.empty\<rparr>)"
  by (simp add: put_doc_text_def utf8_encode_def valid_hello utf8_hello
        maybe_compress_def env_neg_def env_small_def redis_empty_def
        put_chunked_def Let_def pipeline_execute_ok ceil_quot_def ceil_div_def
        chunk_writes_def apply_writes_def keys_d)

lemma get_hello_neg:
  "get_doc_text env_neg 1 ''d''
     \<lparr>REDIS = Some \<lparr>kv = fmupd ''doc:d:meta'' (meta_json (- 5) 5 5 False) fmempty,
                     faults = []\<rparr>,
       DOC_STORE = Map.empty\<rparr>
   = ([], \<lparr>REDIS = Some \<lparr>kv = fmupd ''doc:d:meta'' (meta_json (- 5) 5 5 False) fmempty,
                            faults = []\<rparr>,
            DOC_STORE = Map.empty\<rparr>)"
  by (simp add: get_doc_text_def redis_get_ok keys_d decode_redis_value_def
        decode_chunked_def meta_json_nonempty env_neg_def env_small_def
        decode_or_empty_def get_fallback_def)

lemma hello_nonempty: "[] \<noteq> hello"
  by (simp add: hello_def)

text \<open>
  Claim C6 as stated fails for a negative chunk size: a put that reports success can
  lose the text. With a single-key limit of 4 bytes and a chunk size of \<open>- 1\<close>, on an
  empty server that never fails, \<open>put_doc_text\<close> of the five-byte text \<open>hello\<close> takes
  the chunked path. Line 159 computes the chunk count \<open>- 5\<close>, the loop over
  \<open>range(- 5)\<close> writes no chunk, the pipeline writes the meta record alone, no exception
  is raised, and the call returns \<open>True\<close>. Afterwards the text is neither in Redis nor
  in \<open>DOC_STORE\<close>, and \<open>get_doc_text\<close> returns the empty string.
\<close>

theorem put_loses_text_counterexample:
  "(let s0 = \<lparr>REDIS = Some redis_empty, DOC_STORE = Map.empty\<rparr>;
        (res, s1) = put_doc_text env_neg 0 ''d'' hello s0;
        (t, s2) = get_doc_text env_neg 1 ''d'' s1
    in res = Inr True
     \<and> s1 = \<lparr>REDIS = Some \<lparr>kv = fmupd ''doc:d:meta'' (meta_json (- 5) 5 5 False) fmempty,
                              faults = []\<rparr>,
              DOC_STORE = Map.empty\<rparr>
     \<and> t = [] \<and> t \<noteq> hello)"
  by (simp add: put_hello_neg get_hello_neg hello_nonempty)


subsection \<open>Clearing a document\<close>

lemma redis_delete_one_ok:
  "faults r = [] \<Longrightarrow>
   redis_delete [k] r = (Inr (if k |\<in>| fmdom (kv r) then 1 else 0), r\<lparr>kv := fmdrop k (kv r)\<rparr>)"
  by (simp add: redis_delete_ok)

lemma clear_chunks_ok:
  assumes "faults r = []"
  shows "\<exists>k. clear_chunks E d meta_raw r
               = (Inr (), r\<lparr>kv := snd (del_keys (map (chunk_key d) [0..<k]) (kv r))\<rparr>)
           \<and> (case json_loads_meta E meta_raw of
                 Some (cnt, c) \<Rightarrow> k = nat cnt
               | None \<Rightarrow> chunk_key d k |\<notin>| fmdom (kv r)
                          \<and> (\<forall>i<k. chunk_key d i |\<in>| fmdom (kv r)))"
proof (cases "json_loads_meta E meta_raw")
  case None
  obtain j where j: "chunk_key d j |\<notin>| fmdom (kv r)"
      "\<forall>i. 0 \<le> i \<and> i < j \<longrightarrow> chunk_key d i |\<in>| fmdom (kv r)"
    using first_missing_exists[of 0 d r] by blast
  have "clear_probe d 0 r = (Inr (), r\<lparr>kv := snd (del_keys (map (chunk_key d) [0..<j]) (kv r))\<rparr>)"
    using assms j by (intro clear_probe_ok) simp_all
  with None j show ?thesis by (auto simp: clear_chunks_def)
next
  case (Some p)
  obtain cnt c where p: "p = (cnt, c)" by (cases p)
  have "clear_chunks E d meta_raw r
          = (Inr (), r\<lparr>kv := snd (del_keys (map (chunk_key d) [0..<nat cnt]) (kv r))\<rparr>)"
    using assms Some p by (simp add: clear_chunks_def Let_def redis_delete_ok)
  with Some p show ?thesis by auto
qed

lemma clear_redis_ok:
  assumes "faults r = []"
  shows "\<exists>k. clear_redis E d r
               = (True, r\<lparr>kv := (case fmlookup (kv r) (meta_key d) of
                                    None \<Rightarrow> fmdrop (single_key d) (kv r)
                                  | Some meta_raw \<Rightarrow>
                                      if meta_raw = [] then fmdrop (single_key d) (kv r)
                                      else cleared d k (kv r))\<rparr>)
           \<and> (case fmlookup (kv r) (meta_key d) of
                 None \<Rightarrow> True
               | Some meta_raw \<Rightarrow>
                   meta_raw \<noteq> [] \<longrightarrow>
                   (case json_loads_meta E meta_raw of
                      Some (cnt, c) \<Rightarrow> k = nat cnt
                    | None \<Rightarrow> chunk_key d k |\<notin>| fmdom (kv r)
                               \<and> (\<forall>i<k. chunk_key d i |\<in>| fmdom (kv r))))"
proof -
  define r1 where "r1 = r\<lparr>kv := fmdrop (single_key d) (kv r)\<rparr>"
  have f1: "faults r1 = []" using assms by (simp add: r1_def)
  have del: "redis_delete [single_key d] r = (Inr (if single_key d |\<in>| fmdom (kv r) then 1 else 0), r1)"
    using assms by (simp add: redis_delete_one_ok r1_def)
  have get: "redis_get (meta_key d) r1 = (Inr (fmlookup (kv r) (meta_key d)), r1)"
    using f1 by (simp add: redis_get_ok r1_def single_ne_meta single_ne_meta[symmetric])
  show ?thesis
  proof (cases "fmlookup (kv r) (meta_key d)")
    case None
    then have "clear_redis E d r = (True, r1)" by (simp add: clear_redis_def del get)
    with None show ?thesis by (simp add: r1_def)
  next
    case (Some meta_raw)
    show ?thesis
    proof (cases "meta_raw = []")
      case True
      with Some have "clear_redis E d r = (True, r1)" by (simp add: clear_redis_def del get)
      with Some True show ?thesis by (simp add: r1_def)
    next
      case False
      from clear_chunks_ok[OF f1, of E d meta_raw]
      obtain k where c: "clear_chunks E d meta_raw r1
               = (Inr (), r1\<lparr>kv := snd (del_keys (map (chunk_key d) [0..<k]) (kv r1))\<rparr>)"
        and k: "(case json_loads_meta E meta_raw of
                 Some (cnt, c) \<Rightarrow> k = nat cnt
               | None \<Rightarrow> chunk_key d k |\<notin>| fmdom (kv r1)
                          \<and> (\<forall>i<k. chunk_key d i |\<in>| fmdom (kv r1)))"
        by blast
      have dom: "chunk_key d i |\<in>| fmdom (kv r1) \<longleftrightarrow> chunk_key d i |\<in>| fmdom (kv r)" for i
        using single_ne_chunk[of d i] by (auto simp: r1_def)
      define r3 where "r3 = r1\<lparr>kv := snd (del_keys (map (chunk_key d) [0..<k]) (kv r1))\<rparr>"
      have f3: "faults r3 = []" using f1 by (simp add: r3_def)
      have "clear_redis E d r = (True, r3\<lparr>kv := fmdrop (meta_key d) (kv r3)\<rparr>)"
        using Some False
        by (simp add: clear_redis_def del get c r3_def[symmetric] redis_delete_one_ok[OF f3])
      then have "clear_redis E d r = (True, r\<lparr>kv := cleared d k (kv r)\<rparr>)"
        by (simp add: r3_def r1_def cleared_def)
      with Some False k show ?thesis by (auto simp: dom split: option.splits)
    qed
  qed
qed


lemma del_keys_keeps_none:
  "fmlookup m k = None \<Longrightarrow> fmlookup (snd (del_keys ks m)) k = None"
  by (simp add: del_keys_lookup)

lemma cleared_lookups:
  "fmlookup (cleared d k m) (single_key d) = None"
  "fmlookup (cleared d k m) (meta_key d) = None"
  "i < k \<Longrightarrow> fmlookup (cleared d k m) (chunk_key d i) = None"
  by (simp_all add: cleared_def del_keys_lookup single_ne_meta)

lemma get_after_clear:
  assumes "faults r' = []" and "d \<noteq> []"
      and "fmlookup (kv r') (single_key d) = None"
      and "fmlookup (kv r') (meta_key d) = None \<or> fmlookup (kv r') (meta_key d) = Some []"
      and "D d = None"
  shows "fst (get_doc_text E now d \<lparr>REDIS = Some r', DOC_STORE = D\<rparr>) = []"
  using assms
  by (auto simp: get_doc_text_def redis_get_ok decode_redis_value_def decode_chunked_def
        get_fallback_def)

lemma clear_doc_ok:
  assumes "REDIS s = Some r" and "faults r = []" and "doc_id \<noteq> []"
  shows "\<exists>k kv'.
           clear_doc E doc_id s
             = (True, \<lparr>REDIS = Some (r\<lparr>kv := kv'\<rparr>), DOC_STORE = (DOC_STORE s)(doc_id := None)\<rparr>)
         \<and> kv' = (case fmlookup (kv r) (meta_key doc_id) of
                    None \<Rightarrow> fmdrop (single_key doc_id) (kv r)
                  | Some meta_raw \<Rightarrow>
                      if meta_raw = [] then fmdrop (single_key doc_id) (kv r)
                      else fmdrop (meta_key doc_id)
                             (snd (del_keys (map (chunk_key doc_id) [0..<k])
                                     (fmdrop (single_key doc_id) (kv r)))))
         \<and> (case fmlookup (kv r) (meta_key doc_id) of
               None \<Rightarrow> True
             | Some meta_raw \<Rightarrow>
                 meta_raw \<noteq> [] \<longrightarrow>
                   fmlookup kv' (meta_key doc_id) = None
                 \<and> (\<forall>i<k. fmlookup kv' (chunk_key doc_id i) = None)
                 \<and> (case json_loads_meta E meta_raw of
                      Some (cnt, c) \<Rightarrow> k = nat cnt
                    | None \<Rightarrow> chunk_key doc_id k |\<notin>| fmdom (kv r)
                               \<and> (\<forall>i<k. chunk_key doc_id i |\<in>| fmdom (kv r))))
         \<and> fmlookup kv' (single_key doc_id) = None
         \<and> clear_doc E doc_id (snd (clear_doc E doc_id s)) = (True, snd (clear_doc E doc_id s))
         \<and> fst (get_doc_text E now doc_id (snd (clear_doc E doc_id s))) = []"
proof -
  define kv0 where "kv0 = fmdrop (single_key doc_id) (kv r)"
  from clear_redis_ok[OF assms(2), of E doc_id]
  obtain k where cr: "clear_redis E doc_id r
               = (True, r\<lparr>kv := (case fmlookup (kv r) (meta_key doc_id) of
                                    None \<Rightarrow> kv0
                                  | Some meta_raw \<Rightarrow>
                                      if meta_raw = [] then kv0
                                      else cleared doc_id k (kv r))\<rparr>)"
    and k: "(case fmlookup (kv r) (meta_key doc_id) of
                 None \<Rightarrow> True
               | Some meta_raw \<Rightarrow>
                   meta_raw \<noteq> [] \<longrightarrow>
                   (case json_loads_meta E meta_raw of
                      Some (cnt, c) \<Rightarrow> k = nat cnt
                    | None \<Rightarrow> chunk_key doc_id k |\<notin>| fmdom (kv r)
                               \<and> (\<forall>i<k. chunk_key doc_id i |\<in>| fmdom (kv r))))"
    unfolding kv0_def by blast
  define kv' where "kv' = (case fmlookup (kv r) (meta_key doc_id) of
                                    None \<Rightarrow> kv0
                                  | Some meta_raw \<Rightarrow>
                                      if meta_raw = [] then kv0
                                      else cleared doc_id k (kv r))"
  define r' where "r' = r\<lparr>kv := kv'\<rparr>"
  define s' where "s' = \<lparr>REDIS = Some r', DOC_STORE = (DOC_STORE s)(doc_id := None)\<rparr>"
  have f': "faults r' = []" and kvr': "kv r' = kv'" using assms(2) by (simp_all add: r'_def)
  have c1: "clear_doc E doc_id s = (True, s')"
    using assms(1,3) cr by (simp add: clear_doc_def s'_def r'_def kv'_def)
  have single: "fmlookup kv' (single_key doc_id) = None"
    by (auto simp: kv'_def kv0_def cleared_lookups split: option.splits)
  have meta: "fmlookup kv' (meta_key doc_id) = None \<or> fmlookup kv' (meta_key doc_id) = Some []"
    by (auto simp: kv'_def kv0_def cleared_lookups single_ne_meta[symmetric] split: option.splits)
  have gone: "fmlookup kv' (meta_key doc_id) = None
            \<and> (\<forall>i<k. fmlookup kv' (chunk_key doc_id i) = None)"
    if "fmlookup (kv r) (meta_key doc_id) = Some meta_raw" "meta_raw \<noteq> []" for meta_raw
    using that by (simp add: kv'_def cleared_lookups)
  have c2: "clear_doc E doc_id s' = (True, s')"
  proof -
    from clear_redis_ok[OF f', of E doc_id]
    obtain k2 where "clear_redis E doc_id r'
               = (True, r'\<lparr>kv := (case fmlookup (kv r') (meta_key doc_id) of
                                    None \<Rightarrow> fmdrop (single_key doc_id) (kv r')
                                  | Some meta_raw \<Rightarrow>
                                      if meta_raw = [] then fmdrop (single_key doc_id) (kv r')
                                      else cleared doc_id k2 (kv r'))\<rparr>)"
      by blast
    moreover have "fmdrop (single_key doc_id) kv' = kv'"
      using single by (intro fmdrop_idle) (simp add: fmdom_notI)
    ultimately have "clear_redis E doc_id r' = (True, r')"
      using meta by (auto simp: kvr' r'_def)
    then show ?thesis using assms(3) by (simp add: clear_doc_def s'_def)
  qed
  have g: "fst (get_doc_text E now doc_id s') = []"
    unfolding s'_def using f' assms(3) single meta
    by (intro get_after_clear) (simp_all add: kvr')
  have "clear_doc E doc_id s
             = (True, \<lparr>REDIS = Some (r\<lparr>kv := kv'\<rparr>), DOC_STORE = (DOC_STORE s)(doc_id := None)\<rparr>)"
    using c1 by (simp add: s'_def r'_def)
  moreover have "kv' = (case fmlookup (kv r) (meta_key doc_id) of
                    None \<Rightarrow> fmdrop (single_key doc_id) (kv r)
                  | Some meta_raw \<Rightarrow>
                      if meta_raw = [] then fmdrop (single_key doc_id) (kv r)
                      else fmdrop (meta_key doc_id)
                             (snd (del_keys (map (chunk_key doc_id) [0..<k])
                                     (fmdrop (single_key doc_id) (kv r)))))"
    unfolding kv'_def kv0_def cleared_def by (rule refl)
  moreover have "(case fmlookup (kv r) (meta_key doc_id) of
               None \<Rightarrow> True
             | Some meta_raw \<Rightarrow>
                 meta_raw \<noteq> [] \<longrightarrow>
                   fmlookup kv' (meta_key doc_id) = None
                 \<and> (\<forall>i<k. fmlookup kv' (chunk_key doc_id i) = None)
                 \<and> (case json_loads_meta E meta_raw of
                      Some (cnt, c) \<Rightarrow> k = nat cnt
                    | None \<Rightarrow> chunk_key doc_id k |\<notin>| fmdom (kv r)
                               \<and> (\<forall>i<k. chunk_key doc_id i |\<in>| fmdom (kv r))))"
    using k gone by (auto split: option.splits)
  moreover have "clear_doc E doc_id (snd (clear_doc E doc_id s)) = (True, snd (clear_doc E doc_id s))"
    using c1 c2 by simp
  moreover have "fst (get_doc_text E now doc_id (snd (clear_doc E doc_id s))) = []"
    using c1 g by simp
  ultimately show ?thesis using single by blast
qed


lemma clear_doc_drops_entry:
  "doc_id \<noteq> [] \<Longrightarrow> DOC_STORE (snd (clear_doc E doc_id s)) = (DOC_STORE s)(doc_id := None)"
  by (simp add: clear_doc_def case_prod_unfold Let_def)

text \<open>
  Claim C7, as the code has it. For a non-empty identifier \<open>clear_doc\<close> removes the
  entry of \<open>DOC_STORE\<close>, whatever the client does. With a Redis client that does not
  fail it returns \<open>True\<close> and deletes the single key. When a meta record is there and
  is not empty, it deletes the chunk keys of the indices below \<open>k\<close> and then the meta key,
  where \<open>k\<close> is the chunk count of the meta record or, when the record cannot be read,
  the first index whose chunk key is not there. When the meta record is missing or
  empty, nothing but the single key is deleted. A second call returns \<open>True\<close> and
  changes nothing, and \<open>get_doc_text\<close> returns the empty string after either call.
\<close>

theorem clear_doc_effect:
  "(doc_id \<noteq> [] \<longrightarrow>
      DOC_STORE (snd (clear_doc E doc_id s)) = (DOC_STORE s)(doc_id := None))
   \<and> (REDIS s = Some r \<and> faults r = [] \<and> doc_id \<noteq> [] \<longrightarrow>
        (\<exists>k kv'.
                   clear_doc E doc_id s
                     = (True, \<lparr>REDIS = Some (r\<lparr>kv := kv'\<rparr>), DOC_STORE = (DOC_STORE s)(doc_id := None)\<rparr>)
                 \<and> kv' = (case fmlookup (kv r) (meta_key doc_id) of
                            None \<Rightarrow> fmdrop (single_key doc_id) (kv r)
                          | Some meta_raw \<Rightarrow>
                              if meta_raw = [] then fmdrop (single_key doc_id) (kv r)
                              else fmdrop (meta_key doc_id)
                                     (snd (del_keys (map (chunk_key doc_id) [0..<k])
                                             (fmdrop (single_key doc_id) (kv r)))))
                 \<and> (case fmlookup (kv r) (meta_key doc_id) of
                       None \<Rightarrow> True
                     | Some meta_raw \<Rightarrow>
                         meta_raw \<noteq> [] \<longrightarrow>
                           fmlookup kv' (meta_key doc_id) = None
                         \<and> (\<forall>i<k. fmlookup kv' (chunk_key doc_id i) = None)
                         \<and> (case json_loads_meta E meta_raw of
                              Some (cnt, c) \<Rightarrow> k = nat cnt
                            | None \<Rightarrow> chunk_key doc_id k |\<notin>| fmdom (kv r)
                                       \<and> (\<forall>i<k. chunk_key doc_id i |\<in>| fmdom (kv r))))
                 \<and> fmlookup kv' (single_key doc_id) = None
                 \<and> clear_doc E doc_id (snd (clear_doc E doc_id s)) = (True, snd (clear_doc E doc_id s))
                 \<and> fst (get_doc_text E now doc_id (snd (clear_doc E doc_id s))) = []))"
  using clear_doc_drops_entry[of doc_id E s] clear_doc_ok[of s r doc_id E now] by blast

theorem clear_doc_effect_witness:
  "clear_doc (env_small\<lparr>json_loads_meta := (\<lambda>b. Some (2, False))\<rparr>) ''d''
      \<lparr>REDIS = Some \<lparr>kv = fmupd ''doc:d:chunk:1'' [4] (fmupd ''doc:d:chunk:0'' [3]
                        (fmupd ''doc:d:meta'' [2] (fmupd ''doc:d'' [1] fmempty))),
                      faults = []\<rparr>, DOC_STORE = [''d'' \<mapsto> (0, [97])]\<rparr>
     = (True, \<lparr>REDIS = Some \<lparr>kv = fmempty, faults = []\<rparr>, DOC_STORE = Map.empty\<rparr>)
   \<and> clear_doc (env_small\<lparr>json_loads_meta := (\<lambda>b. Some (2, False))\<rparr>) ''d''
        \<lparr>REDIS = Some \<lparr>kv = fmempty, faults = []\<rparr>, DOC_STORE = Map.empty\<rparr>
     = (True, \<lparr>REDIS = Some \<lparr>kv = fmempty, faults = []\<rparr>, DOC_STORE = Map.empty\<rparr>)
   \<and> fst (get_doc_text (env_small\<lparr>json_loads_meta := (\<lambda>b. Some (2, False))\<rparr>) 0 ''d''
        \<lparr>REDIS = Some \<lparr>kv = fmempty, faults = []\<rparr>, DOC_STORE = Map.empty\<rparr>) = []"
proof -
  define E where "E = env_small\<lparr>json_loads_meta := (\<lambda>b. Some (2, False))\<rparr>"
  define m :: keyspace where "m = fmupd ''doc:d:chunk:1'' [4] (fmupd ''doc:d:chunk:0'' [3]
                        (fmupd ''doc:d:meta'' [2] (fmupd ''doc:d'' [1] fmempty)))"
  define r where "r = \<lparr>kv = m, faults = []\<rparr>"
  define s where "s = \<lparr>REDIS = Some r, DOC_STORE = [''d'' \<mapsto> (0::real, [97::nat])]\<rparr>"
  have pre: "REDIS s = Some r" "faults r = []" "''d'' \<noteq> []" by (simp_all add: s_def r_def)
  have meta: "fmlookup (kv r) (meta_key ''d'') = Some [2]" by (simp add: r_def m_def keys_d)
  have js: "json_loads_meta E [2] = Some (2, False)" by (simp add: E_def)
  from clear_doc_effect[of "''d''" E s r 0] pre
  obtain k kv' where c: "clear_doc E ''d'' s
             = (True, \<lparr>REDIS = Some (r\<lparr>kv := kv'\<rparr>), DOC_STORE = (DOC_STORE s)(''d'' := None)\<rparr>)"
    and kv': "kv' = fmdrop (meta_key ''d'')
                      (snd (del_keys (map (chunk_key ''d'') [0..<k])
                              (fmdrop (single_key ''d'') (kv r))))"
    and k: "k = 2"
    and again: "clear_doc E ''d'' (snd (clear_doc E ''d'' s)) = (True, snd (clear_doc E ''d'' s))"
    and g: "fst (get_doc_text E 0 ''d'' (snd (clear_doc E ''d'' s))) = []"
    unfolding meta by (auto simp: js)
  have "kv' = fmempty"
    unfolding kv' k by (simp add: r_def m_def keys_d upt_rec fmdrop_fmupd)
  with c have c': "clear_doc E ''d'' s
      = (True, \<lparr>REDIS = Some \<lparr>kv = fmempty, faults = []\<rparr>, DOC_STORE = Map.empty\<rparr>)"
    by (simp add: s_def r_def)
  from again g show ?thesis
    unfolding c' using c' by (simp add: E_def s_def r_def m_def)
qed

text \<open>
  Claim C7 as stated fails for a meta record that is there but empty: it cannot be
  read, yet \<open>clear_doc\<close> neither probes the chunk keys nor deletes the meta key (the
  test \<open>if meta_raw:\<close> of line 280 is false for it).
\<close>

theorem clear_empty_meta_counterexample:
  "clear_doc env_small ''d''
      \<lparr>REDIS = Some \<lparr>kv = fmupd ''doc:d:chunk:0'' [0x61] (fmupd ''doc:d:meta'' [] fmempty),
                      faults = []\<rparr>, DOC_STORE = Map.empty\<rparr>
     = (True, \<lparr>REDIS = Some \<lparr>kv = fmupd ''doc:d:chunk:0'' [0x61]
                                      (fmupd ''doc:d:meta'' [] fmempty),
                               faults = []\<rparr>, DOC_STORE = Map.empty\<rparr>)
   \<and> json_loads_meta env_small [] = None"
  by (simp add: clear_doc_def clear_redis_def redis_delete_one_ok redis_get_ok keys_d
        fmdrop_fmupd env_small_def)


subsection \<open>The two forms of one identifier\<close>

lemma put_hello_fresh:
  "put_doc_text env_small 0 ''d'' hello \<lparr>REDIS = Some redis_empty, DOC_STORE = Map.empty\<rparr>
     = (Inr True,
        \<lparr>REDIS = Some \<lparr>kv = fmupd ''doc:d:meta'' (meta_json 3 5 5 False) chunks_of_hello,
                        faults = []\<rparr>,
          DOC_STORE = Map.empty\<rparr>)"
  by (simp add: put_doc_text_def utf8_encode_def valid_hello utf8_hello
        maybe_compress_def env_small_def put_chunked_ok ceil_div_def redis_empty_def
        chunk_writes_def slice_chunk_def apply_writes_def upt_rec keys_d chunks_of_hello_def)

lemma put_small_over_chunks:
  "put_doc_text env_small 0 ''d'' [97]
      \<lparr>REDIS = Some \<lparr>kv = fmupd ''doc:d:meta'' (meta_json 3 5 5 False) chunks_of_hello,
                      faults = []\<rparr>,
        DOC_STORE = Map.empty\<rparr>
     = (Inr True,
        \<lparr>REDIS = Some \<lparr>kv = fmupd ''doc:d'' [0x61] chunks_of_hello, faults = []\<rparr>,
          DOC_STORE = Map.empty\<rparr>)"
  by (simp add: put_doc_text_def utf8_encode_def valid_text_def is_scalar_def utf8_def
        encode_cp_def maybe_compress_def env_small_def put_single_ok
        single_payload_def keys_d fmdrop_fmupd chunks_of_hello_def)

lemma clear_after_small:
  "clear_doc env_small ''d''
      \<lparr>REDIS = Some \<lparr>kv = fmupd ''doc:d'' [0x61] chunks_of_hello, faults = []\<rparr>,
        DOC_STORE = Map.empty\<rparr>
     = (True, \<lparr>REDIS = Some \<lparr>kv = chunks_of_hello, faults = []\<rparr>, DOC_STORE = Map.empty\<rparr>)"
  by (simp add: clear_doc_def clear_redis_def redis_delete_one_ok redis_get_ok keys_d
        fmdrop_fmupd chunks_of_hello_def)

lemma build_after_clear:
  "build_chunks_from_redis env_small ''d''
      \<lparr>REDIS = Some \<lparr>kv = chunks_of_hello, faults = []\<rparr>, DOC_STORE = Map.empty\<rparr>
     = ([\<lparr>chunk_index = 0, redis_key = ''doc:d:chunk:0'', stored_bytes = 2\<rparr>,
         \<lparr>chunk_index = 1, redis_key = ''doc:d:chunk:1'', stored_bytes = 2\<rparr>,
         \<lparr>chunk_index = 2, redis_key = ''doc:d:chunk:2'', stored_bytes = 1\<rparr>],
        \<lparr>REDIS = Some \<lparr>kv = chunks_of_hello, faults = []\<rparr>, DOC_STORE = Map.empty\<rparr>)"
proof -
  define r where "r = \<lparr>kv = chunks_of_hello, faults = []\<rparr>"
  have f: "faults r = []" by (simp add: r_def)
  have dom: "chunk_key ''d'' 0 |\<in>| fmdom (kv r)" "chunk_key ''d'' 1 |\<in>| fmdom (kv r)"
    "chunk_key ''d'' 2 |\<in>| fmdom (kv r)" "chunk_key ''d'' 3 |\<notin>| fmdom (kv r)"
    by (simp_all add: r_def chunks_of_hello_def keys_d)
  have "\<forall>i. 0 \<le> i \<and> i < 3 \<longrightarrow> chunk_key ''d'' i |\<in>| fmdom (kv r)"
  proof (intro allI impI)
    fix i :: nat assume "0 \<le> i \<and> i < 3"
    then have "i = 0 \<or> i = 1 \<or> i = 2" by auto
    with dom show "chunk_key ''d'' i |\<in>| fmdom (kv r)" by auto
  qed
  then have pc: "probe_count ''d'' 0 r = (Inr 3, r)"
    using f dom(4) by (intro probe_count_ok) simp_all
  have look: "fmlookup (kv r) (single_key ''d'') = None" "fmlookup (kv r) (meta_key ''d'') = None"
    by (simp_all add: r_def chunks_of_hello_def keys_d)
  have "build_chunks_from_redis env_small ''d'' \<lparr>REDIS = Some r, DOC_STORE = Map.empty\<rparr>
     = ([\<lparr>chunk_index = 0, redis_key = ''doc:d:chunk:0'', stored_bytes = 2\<rparr>,
         \<lparr>chunk_index = 1, redis_key = ''doc:d:chunk:1'', stored_bytes = 2\<rparr>,
         \<lparr>chunk_index = 2, redis_key = ''doc:d:chunk:2'', stored_bytes = 1\<rparr>],
        \<lparr>REDIS = Some r, DOC_STORE = Map.empty\<rparr>)"
    using dom(1)
    by (simp add: build_chunks_from_redis_def redis_get_ok[OF f] look count_chunks_def
          probe_chunks_def redis_exists_ok[OF f] pc build_entries_ok[OF f] upt_rec)
       (simp add: r_def chunks_of_hello_def keys_d)
  then show ?thesis by (simp add: r_def)
qed

text \<open>
  Claim C2 (form exclusivity), evaluated where it fails, with a single-key limit of 4
  bytes and a chunk size of 2. First direction: the five-byte text is written in chunked
  form, then the one-byte text in single-key form. The second write deletes the meta key
  only, so the three chunk keys of the first write stay in the key space; after
  \<open>clear_doc\<close>, which finds no meta record and deletes no chunk key,
  \<open>build_chunks_from_redis\<close> reports these three stale chunks as the layout of the
  document. Second direction: the one-byte text is written in single-key form, then the
  five-byte text in chunked form. The second write leaves the single key, so that both
  forms exist, and the reader returns the old text.
\<close>

theorem stale_forms_after_put:
  "(let s0 = \<lparr>REDIS = Some redis_empty, DOC_STORE = Map.empty\<rparr>;
        (r1, s1) = put_doc_text env_small 0 ''d'' hello s0;
        (r2, s2) = put_doc_text env_small 0 ''d'' [97] s1;
        (ok, s3) = clear_doc env_small ''d'' s2;
        (descs, s4) = build_chunks_from_redis env_small ''d'' s3
    in r1 = Inr True \<and> r2 = Inr True \<and> ok
       \<and> map_option (\<lambda>r. map (fmlookup (kv r))
                             [''doc:d'', ''doc:d:chunk:0'', ''doc:d:chunk:1'', ''doc:d:chunk:2''])
            (REDIS s2)
           = Some [Some [0x61], Some [0x68, 0x65], Some [0x6C, 0x6C], Some [0x6F]]
       \<and> map redis_key descs = [''doc:d:chunk:0'', ''doc:d:chunk:1'', ''doc:d:chunk:2''])
   \<and> (let s0 = \<lparr>REDIS = Some redis_empty, DOC_STORE = Map.empty\<rparr>;
            (r1, s1) = put_doc_text env_small 0 ''d'' [97] s0;
            (r2, s2) = put_doc_text env_small 0 ''d'' hello s1
        in r1 = Inr True \<and> r2 = Inr True
           \<and> map_option (\<lambda>r. map (fmlookup (kv r)) [''doc:d'', ''doc:d:meta'']) (REDIS s2)
               = Some [Some [0x61], Some (meta_json 3 5 5 False)])"
  by (simp add: put_hello_fresh put_small_over_chunks clear_after_small build_after_clear
        put_small_example put_hello_over_small)
     (simp add: chunks_of_hello_def)


subsection \<open>Round trip on a store without left-overs\<close>

lemma those_map_Some:
  "(\<forall>x\<in>set xs. f x = Some (g x)) \<Longrightarrow> those (map f xs) = Some (map g xs)"
  by (induction xs) simp_all

lemma get_single_value:
  assumes "faults r = []" and "d \<noteq> []" and "fmlookup (kv r) (single_key d) = Some v"
      and "decode_single E v = t" and "t \<noteq> [] \<or> D d = None"
  shows "fst (get_doc_text E now d \<lparr>REDIS = Some r, DOC_STORE = D\<rparr>) = t"
  using assms
  by (auto simp: get_doc_text_def redis_get_ok decode_redis_value_def get_fallback_def)

lemma get_chunked_value:
  assumes "faults r = []" and "d \<noteq> []" and "fmlookup (kv r) (single_key d) = None"
      and "fmlookup (kv r) (meta_key d) = Some meta_raw" and "meta_raw \<noteq> []"
      and "json_loads_meta E meta_raw = Some (n, compressed)"
      and "\<forall>i<nat n. fmlookup (kv r) (chunk_key d i) = Some (g i)"
      and "(if compressed
            then (case gzip_decompress_bytes E (concat (map g [0..<nat n])) of
                    Some raw \<Rightarrow> decode_or_empty raw | None \<Rightarrow> [])
            else decode_or_empty (concat (map g [0..<nat n]))) = t"
      and "t \<noteq> [] \<or> D d = None"
  shows "fst (get_doc_text E now d \<lparr>REDIS = Some r, DOC_STORE = D\<rparr>) = t"
proof -
  have th: "those (map (\<lambda>i. fmlookup (kv r) (chunk_key d i)) [0..<nat n]) = Some (map g [0..<nat n])"
    using assms(7) by (intro those_map_Some) simp
  have dc: "decode_chunked E d r = (t, r)"
    using assms(1,4,5,6,8)
    by (auto simp: decode_chunked_def redis_get_ok fetch_chunks_ok th Let_def
          split: option.splits)
  show ?thesis
    using assms(1,2,3,9) dc
    by (auto simp: get_doc_text_def redis_get_ok decode_redis_value_def get_fallback_def)
qed

text \<open>
  What does hold of the round trip. Let the client not fail, the chunk size be positive,
  the chunk size and the length of the payload be below \<open>2 ^ 53\<close>, the identifier
  non-empty and the text encodable. Let the codec invert itself on the
  payload when the text was compressed; let \<open>gzip.decompress\<close> fail on the bytes after
  the marker when a raw single-key payload starts with the marker; let the reader of
  meta records read the record written by this call. If the payload fits the single key,
  or no single key of this identifier is left from an earlier write, and if the text is
  not empty or \<open>DOC_STORE\<close> has no entry for the identifier, then \<open>put_doc_text\<close>
  returns \<open>True\<close> and \<open>get_doc_text\<close> returns the text.
\<close>

theorem roundtrip_clean:
  assumes "REDIS s = Some r" and "faults r = []" and "doc_id \<noteq> []" and "valid_text txt"
      and "0 < CHUNK_SIZE E"
      and mc: "maybe_compress E (utf8 txt) = (payload, compressed)"
      and codec: "compressed \<longrightarrow> gzip_decompress_bytes E payload = Some (utf8 txt)"
      and marker: "\<not> compressed \<and> int (length payload) \<le> MAX_SINGLE_KEY E \<and>
                   startswith (utf8 txt) MARKER_COMPRESSED \<longrightarrow>
                   gzip_decompress_bytes E (drop (length MARKER_COMPRESSED) (utf8 txt)) = None"
      and json: "json_loads_meta E
                   (meta_json (ceil_div (int (length payload)) (CHUNK_SIZE E))
                      (int (length (utf8 txt))) (int (length payload)) compressed)
                 = Some (ceil_div (int (length payload)) (CHUNK_SIZE E), compressed)"
      and fresh: "int (length payload) \<le> MAX_SINGLE_KEY E
                  \<or> fmlookup (kv r) (single_key doc_id) = None"
      and nofb: "txt \<noteq> [] \<or> DOC_STORE s doc_id = None"
      and bounds: "CHUNK_SIZE E < 2 ^ 53" "int (length payload) < 2 ^ 53"
  shows "fst (put_doc_text E now doc_id txt s) = Inr True
       \<and> fst (get_doc_text E now' doc_id (snd (put_doc_text E now doc_id txt s))) = txt"
proof -
  have rt: "utf8_decode (utf8 txt) = Some txt" using assms(4) by (rule utf8_roundtrip)
  have raw_payload: "payload = utf8 txt" if "\<not> compressed"
    using mc that by (auto simp: maybe_compress_def split: if_splits option.splits)
  have s_eq: "s\<lparr>REDIS := Some r'\<rparr> = \<lparr>REDIS = Some r', DOC_STORE = DOC_STORE s\<rparr>" for r'
    by simp
  show ?thesis
  proof (cases "int (length payload) \<le> MAX_SINGLE_KEY E")
    case True
    define r' where "r' = r\<lparr>kv := fmdrop (meta_key doc_id)
                              (fmupd (single_key doc_id) (single_payload payload compressed) (kv r))\<rparr>"
    have put: "put_doc_text E now doc_id txt s = (Inr True, s\<lparr>REDIS := Some r'\<rparr>)"
      using assms(1-4) mc True
      by (simp add: put_doc_text_def utf8_encode_def put_single_ok r'_def)
    have look: "fmlookup (kv r') (single_key doc_id) = Some (single_payload payload compressed)"
      by (simp add: r'_def single_ne_meta)
    have dec: "decode_single E (single_payload payload compressed) = txt"
    proof (cases compressed)
      case c: True
      with codec have "gzip_decompress_bytes E payload = Some (utf8 txt)" by simp
      with c show ?thesis
        by (simp add: decode_single_def single_payload_def startswith_def rt)
    next
      case c: False
      then have p: "payload = utf8 txt" by (rule raw_payload)
      show ?thesis
      proof (cases "startswith (utf8 txt) MARKER_COMPRESSED")
        case sw: True
        with marker c True
        have "gzip_decompress_bytes E (drop (length MARKER_COMPRESSED) (utf8 txt)) = None"
          by simp
        with c p sw show ?thesis
          by (simp add: decode_single_def single_payload_def decode_or_empty_def rt)
      next
        case sw: False
        with c p show ?thesis
          by (simp add: decode_single_def single_payload_def decode_or_empty_def rt)
      qed
    qed
    have "fst (get_doc_text E now' doc_id \<lparr>REDIS = Some r', DOC_STORE = DOC_STORE s\<rparr>) = txt"
      using assms(2,3) look dec nofb by (intro get_single_value) (simp_all add: r'_def)
    with put show ?thesis by (simp add: s_eq)
  next
    case False
    define n where "n = ceil_div (int (length payload)) (CHUNK_SIZE E)"
    define mj where "mj = meta_json n (int (length (utf8 txt))) (int (length payload)) compressed"
    define r' where "r' = r\<lparr>kv := fmupd (meta_key doc_id) mj
                                    (apply_writes (chunk_writes E doc_id payload n) (kv r))\<rparr>"
    have put: "put_doc_text E now doc_id txt s = (Inr True, s\<lparr>REDIS := Some r'\<rparr>)"
      using assms(1-5) mc False bounds
      by (simp add: put_doc_text_def utf8_encode_def put_chunked_ok r'_def mj_def n_def)
    have single: "fmlookup (kv r') (single_key doc_id) = None"
      using fresh False
      by (simp add: r'_def single_ne_meta[symmetric] lookup_chunk_writes_other single_ne_chunk)
    have meta: "fmlookup (kv r') (meta_key doc_id) = Some mj" by (simp add: r'_def)
    have chunks: "\<forall>i<nat n. fmlookup (kv r') (chunk_key doc_id i) = Some (slice_chunk E payload i)"
      by (simp add: r'_def meta_ne_chunk lookup_chunk_writes)
    have cover: "concat (map (slice_chunk E payload) [0..<nat n]) = payload"
      unfolding n_def by (rule slices_cover[OF assms(5)])
    have js: "json_loads_meta E mj = Some (n, compressed)"
      using json by (simp add: mj_def n_def)
    have dec: "(if compressed
            then (case gzip_decompress_bytes E (concat (map (slice_chunk E payload) [0..<nat n])) of
                    Some raw \<Rightarrow> decode_or_empty raw | None \<Rightarrow> [])
            else decode_or_empty (concat (map (slice_chunk E payload) [0..<nat n]))) = txt"
      unfolding cover using codec raw_payload
      by (auto simp: decode_or_empty_def rt)
    have "fst (get_doc_text E now' doc_id \<lparr>REDIS = Some r', DOC_STORE = DOC_STORE s\<rparr>) = txt"
      using assms(2,3) single meta js chunks dec nofb
      by (intro get_chunked_value[where meta_raw = mj and n = n and compressed = compressed
            and g = "slice_chunk E payload"])
         (simp_all add: r'_def mj_def meta_json_nonempty)
    with put show ?thesis by (simp add: s_eq)
  qed
qed


theorem roundtrip_clean_witness:
  "fst (get_doc_text env_tiny 1 ''d''
         (snd (put_doc_text env_tiny 0 ''d'' [97, 98, 99, 100]
                 \<lparr>REDIS = Some redis_empty, DOC_STORE = Map.empty\<rparr>))) = [97, 98, 99, 100]"
proof -
  define payload :: bytes where "payload = [0x1F, 0x8B, 0x61, 0x62, 0x63, 0x64]"
  have u: "utf8 [97, 98, 99, 100] = [0x61, 0x62, 0x63, 0x64]"
    by (simp add: utf8_def encode_cp_def)
  have v: "valid_text [97, 98, 99, 100]"
    by (simp add: valid_text_def is_scalar_def)
  have m: "maybe_compress env_tiny (utf8 [97, 98, 99, 100]) = (payload, True)"
    by (simp add: maybe_compress_def env_tiny_def toy_gzip_def u payload_def)
  have c: "0 < CHUNK_SIZE env_tiny" by (simp add: env_tiny_def)
  have r: "REDIS \<lparr>REDIS = Some redis_empty, DOC_STORE = Map.empty\<rparr> = Some redis_empty"
    "faults redis_empty = []" "''d'' \<noteq> []"
    by (simp_all add: redis_empty_def)
  have codec: "True \<longrightarrow> gzip_decompress_bytes env_tiny payload = Some (utf8 [97, 98, 99, 100])"
    by (simp add: env_tiny_def toy_gunzip_def u payload_def)
  have len: "int (length payload) = 6" by (simp add: payload_def)
  have cd: "ceil_div 6 (CHUNK_SIZE env_tiny) = 2"
    by (simp add: ceil_div_def env_tiny_def)
  have lu: "int (length (utf8 [97, 98, 99, 100])) = 4" by (simp add: u)
  have json: "json_loads_meta env_tiny
                   (meta_json (ceil_div (int (length payload)) (CHUNK_SIZE env_tiny))
                      (int (length (utf8 [97, 98, 99, 100]))) (int (length payload)) True)
                 = Some (ceil_div (int (length payload)) (CHUNK_SIZE env_tiny), True)"
    unfolding len cd lu by (simp add: env_tiny_def)
  have fresh: "int (length payload) \<le> MAX_SINGLE_KEY env_tiny
                  \<or> fmlookup (kv redis_empty) (single_key ''d'') = None"
    by (simp add: redis_empty_def)
  have nofb: "[97, 98, 99, 100] \<noteq> ([]::pystr)
                \<or> DOC_STORE \<lparr>REDIS = Some redis_empty, DOC_STORE = Map.empty\<rparr> ''d'' = None"
    by simp
  have marker: "\<not> True \<and> int (length payload) \<le> MAX_SINGLE_KEY env_tiny \<and>
                   startswith (utf8 [97, 98, 99, 100]) MARKER_COMPRESSED \<longrightarrow>
                   gzip_decompress_bytes env_tiny
                     (drop (length MARKER_COMPRESSED) (utf8 [97, 98, 99, 100])) = None"
    by simp
  have bounds: "CHUNK_SIZE env_tiny < 2 ^ 53" "int (length payload) < 2 ^ 53"
    by (simp_all add: env_tiny_def payload_def)
  from roundtrip_clean[OF r v c m codec marker json fresh nofb bounds, of 0 1]
  show ?thesis by simp
qed

text \<open>
  The hypothesis on the marker cannot be dropped: \<open>gzip.decompress\<close> returns the empty
  bytes for the empty input, so the five-byte text \<open>gzip:\<close>, stored raw, is read as a
  compressed empty text.
\<close>

lemma marker_only_text_comes_back_empty:
  "fst (put_doc_text env_toy 0 ''d'' [103, 122, 105, 112, 58]
          \<lparr>REDIS = Some redis_empty, DOC_STORE = Map.empty\<rparr>) = Inr True
   \<and> fst (get_doc_text env_toy 1 ''d''
         (snd (put_doc_text env_toy 0 ''d'' [103, 122, 105, 112, 58]
                 \<lparr>REDIS = Some redis_empty, DOC_STORE = Map.empty\<rparr>))) = []"
proof -
  have put: "put_doc_text env_toy 0 ''d'' [103, 122, 105, 112, 58]
          \<lparr>REDIS = Some redis_empty, DOC_STORE = Map.empty\<rparr>
     = (Inr True, \<lparr>REDIS = Some \<lparr>kv = fmupd ''doc:d'' [0x67, 0x7A, 0x69, 0x70, 0x3A] fmempty,
                                   faults = []\<rparr>, DOC_STORE = Map.empty\<rparr>)"
    by (simp add: put_doc_text_def utf8_encode_def valid_text_def is_scalar_def utf8_def
          encode_cp_def maybe_compress_def env_toy_def redis_empty_def put_single_ok
          single_payload_def keys_d fmdrop_fmupd)
  show ?thesis
    unfolding put
    by (simp add: get_doc_text_def redis_get_ok keys_d decode_redis_value_def decode_single_def
          startswith_def MARKER_COMPRESSED_def env_toy_def toy_gunzip_def get_fallback_def)
qed


end
